theory Spec2Isabelle
  imports Complex_Main
begin

section \<open>Python values and errors\<close>

text \<open>
  The exceptions the script can raise become values of \<open>py_error\<close>; a computation that
  may raise returns \<open>py_error + 'a\<close>, with \<open>Inl\<close> for the raised exception.
\<close>

datatype py_error =
    IndexError
  | KeyError int
  | ZeroDivisionError
  | UnboundLocalError string
  | ValueError
  | RuntimeError

text \<open>Indexing a Python list: a negative index counts from the end, an index out of
  range raises \<open>IndexError\<close>.\<close>

definition py_getitem :: "'a list \<Rightarrow> int \<Rightarrow> py_error + 'a" where
  "py_getitem xs idx =
     (if 0 \<le> idx \<and> idx < int (length xs) then Inr (xs ! nat idx)
      else if idx < 0 \<and> - int (length xs) \<le> idx then Inr (xs ! nat (int (length xs) + idx))
      else Inl IndexError)"

section \<open>Datasets, label maps and subsets (compare2.py, lines 28-71)\<close>

text \<open>
  \<open>datasets.MNIST\<close> is a sequence of (image, label) pairs, the label a Python
  \<open>int\<close>. The image type is left open.
\<close>

type_synonym 'i mnist = "('i \<times> int) list"

definition even_label_map :: "int \<rightharpoonup> int" where
  "even_label_map = [0 \<mapsto> 0, 2 \<mapsto> 1, 4 \<mapsto> 2, 6 \<mapsto> 3, 8 \<mapsto> 4]"

definition odd_label_map :: "int \<rightharpoonup> int" where
  "odd_label_map = [1 \<mapsto> 0, 3 \<mapsto> 1, 5 \<mapsto> 2, 7 \<mapsto> 3, 9 \<mapsto> 4]"

text \<open>Line 37: \<open>[i for i, (img, label) in enumerate(full_train_dataset) if label in [0, 2, 4, 6, 8]]\<close>.\<close>

definition train_indices :: "'i mnist \<Rightarrow> nat list" where
  "train_indices full_train_dataset =
     [i. (i, (img, label)) \<leftarrow> enumerate 0 full_train_dataset, label \<in> set [0, 2, 4, 6, 8]]"

text \<open>Lines 43 and 50: \<open>[i for i, (img, lbl) in enumerate(dataset) if lbl == label]\<close>.\<close>

definition label_indices :: "'i mnist \<Rightarrow> int \<Rightarrow> nat list" where
  "label_indices dataset label =
     [i. (i, (img, lbl)) \<leftarrow> enumerate 0 dataset, lbl = label]"

text \<open>
  Lines 41-44 and 48-51 are the same loop with a different dataset and cap:
  for each label in turn, the list is extended by \<open>indices[:cap]\<close>.
\<close>

fun extend_per_label :: "'i mnist \<Rightarrow> nat \<Rightarrow> int list \<Rightarrow> nat list \<Rightarrow> nat list" where
  "extend_per_label dataset cap [] acc = acc"
| "extend_per_label dataset cap (label # labels) acc =
     extend_per_label dataset cap labels (acc @ take cap (label_indices dataset label))"

definition small_train_indices :: "'i mnist \<Rightarrow> nat list" where
  "small_train_indices full_train_dataset =
     extend_per_label full_train_dataset 20 [1, 3, 5, 7, 9] []"

definition test_indices :: "'i mnist \<Rightarrow> nat list" where
  "test_indices test_dataset =
     extend_per_label test_dataset 200 [1, 3, 5, 7, 9] []"

text \<open>\<open>torch.utils.data.Subset\<close>: \<open>subset[idx]\<close> is \<open>dataset[indices[idx]]\<close>.\<close>

record 'i subset =
  sub_dataset :: "'i mnist"
  sub_indices :: "nat list"

definition Subset :: "'i mnist \<Rightarrow> nat list \<Rightarrow> 'i subset" where
  "Subset ds ixs = \<lparr>sub_dataset = ds, sub_indices = ixs\<rparr>"

definition subset_len :: "'i subset \<Rightarrow> nat" where
  "subset_len s = length (sub_indices s)"

definition subset_getitem :: "'i subset \<Rightarrow> int \<Rightarrow> py_error + ('i \<times> int)" where
  "subset_getitem s idx =
     (case py_getitem (sub_indices s) idx of
        Inl e \<Rightarrow> Inl e
      | Inr i \<Rightarrow> py_getitem (sub_dataset s) (int i))"

text \<open>\<open>RemapLabelsDataset\<close> (lines 55-66).\<close>

record 'i remap_labels_dataset =
  dataset :: "'i subset"
  label_map :: "int \<rightharpoonup> int"

definition RemapLabelsDataset :: "'i subset \<Rightarrow> (int \<rightharpoonup> int) \<Rightarrow> 'i remap_labels_dataset" where
  "RemapLabelsDataset ds lm = \<lparr>dataset = ds, label_map = lm\<rparr>"

definition remap_len :: "'i remap_labels_dataset \<Rightarrow> nat" where
  "remap_len self = subset_len (dataset self)"

definition remap_getitem :: "'i remap_labels_dataset \<Rightarrow> int \<Rightarrow> py_error + ('i \<times> int)" where
  "remap_getitem self idx =
     (case subset_getitem (dataset self) idx of
        Inl e \<Rightarrow> Inl e
      | Inr (img, label) \<Rightarrow>
          (case label_map self label of
             None \<Rightarrow> Inl (KeyError label)
           | Some new_label \<Rightarrow> Inr (img, new_label)))"

text \<open>Lines 38, 45, 52 and 69-71: the three datasets the loaders read.\<close>

definition big_train_dataset :: "'i mnist \<Rightarrow> 'i remap_labels_dataset" where
  "big_train_dataset full_train_dataset =
     RemapLabelsDataset (Subset full_train_dataset (train_indices full_train_dataset)) even_label_map"

definition small_train_dataset :: "'i mnist \<Rightarrow> 'i remap_labels_dataset" where
  "small_train_dataset full_train_dataset =
     RemapLabelsDataset (Subset full_train_dataset (small_train_indices full_train_dataset)) odd_label_map"

definition test_dataset_remapped :: "'i mnist \<Rightarrow> 'i remap_labels_dataset" where
  "test_dataset_remapped test_dataset =
     RemapLabelsDataset (Subset test_dataset (test_indices test_dataset)) odd_label_map"

section \<open>The numerical library\<close>

text \<open>
  Tensors, random number generation, the network's forward pass, automatic
  differentiation and Adam's update rule belong to PyTorch, not to the script. They are
  taken as parameters: a record of total functions over an open tensor type \<open>'v\<close>,
  image type \<open>'i\<close> and optimizer-state type \<open>'s\<close>. The output of the network
  is one row of class scores per image. The six parameter tensors of the network are
  passed in the order of \<open>model.parameters()\<close>. The generator state is a counter:
  every draw advances it.
\<close>

record ('v, 'i, 's) torch =
  init_tensor :: "nat \<Rightarrow> 'v"
  randperm :: "nat \<Rightarrow> nat \<Rightarrow> nat list"
  forward :: "'v list \<Rightarrow> 'i list \<Rightarrow> real list list"
  argmax :: "real list list \<Rightarrow> int list"
  loss_grad :: "'v list \<Rightarrow> 'i list \<Rightarrow> int list \<Rightarrow> 'v list"
  add_grad :: "'v \<Rightarrow> 'v \<Rightarrow> 'v"
  adam_update :: "'s option \<Rightarrow> 'v \<Rightarrow> 'v \<Rightarrow> 's \<times> 'v"

section \<open>The object store\<close>

text \<open>
  Parameter tensors, the model and the optimizers are mutable objects that the script
  shares by reference (an optimizer holds the parameter objects of the model it was built
  from). They live in a store, addressed by numbers; the log files, the console, the saved
  images and the saved arrays are the rest of the state.
\<close>

record 'v parameter =
  data :: 'v
  requires_grad :: bool
  grad :: "'v option"

record layer =
  weight :: nat
  bias :: nat

record mnistnet =
  conv1 :: layer
  conv2 :: layer
  fc1 :: layer
  training :: bool

record 's adam =
  params :: "nat list"
  state :: "nat \<rightharpoonup> 's"

text \<open>
  The text of a message is determined by the values formatted into it; a message is kept
  as those values (the timestamp a log line starts with is not modelled).
\<close>

datatype message =
    RunMsg nat nat
  | StartNonTransferMsg nat
  | StartTransferMsg nat
  | EpochMsg string nat nat real real
  | TestAccuracyMsg string real
  | Text string

record plot =
  accuracy_curve :: "real list"
  loss_curve :: "real list"

datatype npy = Array1 "real list" | Array2 "real list list"

record ('v, 's) world =
  rng :: nat
  next_id :: nat
  tensors :: "nat \<Rightarrow> 'v parameter"
  modules :: "nat \<Rightarrow> mnistnet"
  optimizers :: "nat \<Rightarrow> 's adam"
  handlers :: "string \<Rightarrow> string list"
  log_files :: "string \<rightharpoonup> message list"
  stdout :: "message list"
  saved_images :: "(string \<times> plot) list"
  npy_files :: "(string \<times> npy) list"

section \<open>Data loaders (lines 74-76)\<close>

record 'i data_loader =
  dl_dataset :: "'i remap_labels_dataset"
  batch_size :: nat
  shuffle :: bool

definition DataLoader :: "'i remap_labels_dataset \<Rightarrow> nat \<Rightarrow> bool \<Rightarrow> 'i data_loader" where
  "DataLoader ds bs sh = \<lparr>dl_dataset = ds, batch_size = bs, shuffle = sh\<rparr>"

text \<open>\<open>len(loader)\<close>: the number of batches, the last one possibly short.\<close>

definition loader_len :: "'i data_loader \<Rightarrow> nat" where
  "loader_len dl = (remap_len (dl_dataset dl) + batch_size dl - 1) div batch_size dl"

text \<open>The batch sampler cuts the sampler's order into runs of \<open>batch_size\<close> indices.
  (A loader with batch size 0 cannot be constructed; the function returns no batch then.)\<close>

function chunks :: "nat \<Rightarrow> 'a list \<Rightarrow> 'a list list" where
  "chunks n xs = (if n = 0 \<or> xs = [] then [] else take n xs # chunks n (drop n xs))"
  by pat_completeness auto
termination
  by (relation "measure (\<lambda>(n, xs). length xs)") auto

text \<open>Collating one batch reads \<open>dataset[i]\<close> for each index in turn; the first
  exception ends it.\<close>

fun fetch :: "'i remap_labels_dataset \<Rightarrow> nat list \<Rightarrow> py_error + ('i list \<times> int list)" where
  "fetch ds [] = Inr ([], [])"
| "fetch ds (i # ixs) =
     (case remap_getitem ds (int i) of
        Inl e \<Rightarrow> Inl e
      | Inr (img, label) \<Rightarrow>
          (case fetch ds ixs of
             Inl e \<Rightarrow> Inl e
           | Inr (imgs, labels) \<Rightarrow> Inr (img # imgs, label # labels)))"

text \<open>
  One iteration over a loader: the order of the indices (a fresh permutation when
  \<open>shuffle\<close> is set, which advances the generator), cut into batches. A batch is
  fetched when the loop asks for it, so each element is the outcome of one fetch.
\<close>

definition loader_iter ::
  "('v, 'i, 's) torch \<Rightarrow> 'i data_loader \<Rightarrow> ('v, 's) world \<Rightarrow>
     (py_error + ('i list \<times> int list)) list \<times> ('v, 's) world" where
  "loader_iter T dl w =
     (let n = remap_len (dl_dataset dl) in
      if shuffle dl
      then (map (fetch (dl_dataset dl)) (chunks (batch_size dl) (randperm T (rng w) n)),
            w\<lparr>rng := Suc (rng w)\<rparr>)
      else (map (fetch (dl_dataset dl)) (chunks (batch_size dl) [0..<n]), w))"

text \<open>Lines 74-76.\<close>

definition big_train_loader :: "'i mnist \<Rightarrow> 'i data_loader" where
  "big_train_loader full_train_dataset = DataLoader (big_train_dataset full_train_dataset) 128 True"

definition small_train_loader :: "'i mnist \<Rightarrow> 'i data_loader" where
  "small_train_loader full_train_dataset = DataLoader (small_train_dataset full_train_dataset) 2 True"

definition test_loader :: "'i mnist \<Rightarrow> 'i data_loader" where
  "test_loader test_dataset = DataLoader (test_dataset_remapped test_dataset) 32 False"

section \<open>The network and the optimizer\<close>

text \<open>A new parameter tensor: freshly initialised from the generator, trainable, with no
  gradient yet.\<close>

definition new_parameter ::
  "('v, 'i, 's) torch \<Rightarrow> ('v, 's) world \<Rightarrow> nat \<times> ('v, 's) world" where
  "new_parameter T w =
     (next_id w,
      w\<lparr>tensors := (tensors w)(next_id w :=
            \<lparr>data = init_tensor T (rng w), requires_grad = True, grad = None\<rparr>),
        next_id := Suc (next_id w),
        rng := Suc (rng w)\<rparr>)"

text \<open>\<open>nn.Conv2d(...)\<close> and \<open>nn.Linear(...)\<close>: a layer with a new weight and a new bias.\<close>

definition new_layer ::
  "('v, 'i, 's) torch \<Rightarrow> ('v, 's) world \<Rightarrow> layer \<times> ('v, 's) world" where
  "new_layer T w =
     (let (wp, w1) = new_parameter T w;
          (bp, w2) = new_parameter T w1
      in (\<lparr>weight = wp, bias = bp\<rparr>, w2))"

text \<open>\<open>MNISTNet(num_classes)\<close> (lines 79-84); a new module is in training mode.\<close>

definition MNISTNet ::
  "('v, 'i, 's) torch \<Rightarrow> ('v, 's) world \<Rightarrow> nat \<times> ('v, 's) world" where
  "MNISTNet T w =
     (let (c1, w1) = new_layer T w;
          (c2, w2) = new_layer T w1;
          (f1, w3) = new_layer T w2;
          m = next_id w3
      in (m, w3\<lparr>modules := (modules w3)(m :=
                   \<lparr>conv1 = c1, conv2 = c2, fc1 = f1, training = True\<rparr>),
                next_id := Suc m\<rparr>))"

definition layer_parameters :: "layer \<Rightarrow> nat list" where
  "layer_parameters l = [weight l, bias l]"

definition model_parameters :: "mnistnet \<Rightarrow> nat list" where
  "model_parameters net =
     layer_parameters (conv1 net) @ layer_parameters (conv2 net) @ layer_parameters (fc1 net)"

definition model_train :: "nat \<Rightarrow> ('v, 's) world \<Rightarrow> ('v, 's) world" where
  "model_train model w = w\<lparr>modules := (modules w)(model := (modules w model)\<lparr>training := True\<rparr>)\<rparr>"

definition model_eval :: "nat \<Rightarrow> ('v, 's) world \<Rightarrow> ('v, 's) world" where
  "model_eval model w = w\<lparr>modules := (modules w)(model := (modules w model)\<lparr>training := False\<rparr>)\<rparr>"

text \<open>\<open>model(images)\<close>: the forward pass (lines 86-93) on the current values of the
  model's parameters.\<close>

definition model_call ::
  "('v, 'i, 's) torch \<Rightarrow> nat \<Rightarrow> 'i list \<Rightarrow> ('v, 's) world \<Rightarrow> real list list" where
  "model_call T model images w =
     forward T (map (\<lambda>p. data (tensors w p)) (model_parameters (modules w model))) images"

text \<open>\<open>optim.Adam(params, lr=0.001)\<close>; an empty parameter list is refused.\<close>

definition Adam :: "nat list \<Rightarrow> ('v, 's) world \<Rightarrow> (py_error + nat) \<times> ('v, 's) world" where
  "Adam ps w =
     (if ps = [] then (Inl ValueError, w)
      else (Inr (next_id w),
            w\<lparr>optimizers := (optimizers w)(next_id w := \<lparr>params = ps, state = Map.empty\<rparr>),
              next_id := Suc (next_id w)\<rparr>))"

text \<open>\<open>optimizer.zero_grad()\<close>: the gradient of each of the optimizer's parameters is reset.\<close>

definition zero_grad :: "nat \<Rightarrow> ('v, 's) world \<Rightarrow> ('v, 's) world" where
  "zero_grad optimizer w =
     w\<lparr>tensors := fold (\<lambda>p t. t(p := (t p)\<lparr>grad := None\<rparr>))
                        (params (optimizers w optimizer)) (tensors w)\<rparr>"

text \<open>
  \<open>loss.backward()\<close>: the gradient of the loss is accumulated into every parameter of
  the model that requires one; it raises when no parameter does.
\<close>

definition backward ::
  "('v, 'i, 's) torch \<Rightarrow> nat \<Rightarrow> 'i list \<Rightarrow> int list \<Rightarrow> ('v, 's) world \<Rightarrow>
     (py_error + unit) \<times> ('v, 's) world" where
  "backward T model images labels w =
     (let ps = model_parameters (modules w model);
          gs = loss_grad T (map (\<lambda>p. data (tensors w p)) ps) images labels
      in if filter (\<lambda>p. requires_grad (tensors w p)) ps = [] then (Inl RuntimeError, w)
         else (Inr (),
               w\<lparr>tensors :=
                   fold (\<lambda>(p, g) t.
                           if requires_grad (t p)
                           then t(p := (t p)\<lparr>grad :=
                                  Some (case grad (t p) of None \<Rightarrow> g | Some g0 \<Rightarrow> add_grad T g0 g)\<rparr>)
                           else t)
                        (zip ps gs) (tensors w)\<rparr>))"

text \<open>\<open>optimizer.step()\<close>: each of the optimizer's parameters that has a gradient is
  updated by Adam's rule; one without a gradient is skipped.\<close>

definition adam_step ::
  "('v, 'i, 's) torch \<Rightarrow> nat \<Rightarrow> ('v, 's) world \<Rightarrow> ('v, 's) world" where
  "adam_step T optimizer w =
     (let opt = optimizers w optimizer;
          (ts, st) =
            fold (\<lambda>p (t, s).
                    case grad (t p) of
                      None \<Rightarrow> (t, s)
                    | Some g \<Rightarrow>
                        (let (s', v') = adam_update T (s p) (data (t p)) g
                         in (t(p := (t p)\<lparr>data := v'\<rparr>), s(p \<mapsto> s'))))
                 (params opt) (tensors w, state opt)
      in w\<lparr>tensors := ts, optimizers := (optimizers w)(optimizer := opt\<lparr>state := st\<rparr>)\<rparr>)"

section \<open>Logging and console output (lines 96-108)\<close>

text \<open>Decimal rendering of a number, as an f-string does it.\<close>

definition digit_char :: "nat \<Rightarrow> char" where
  "digit_char d = ''0123456789'' ! d"

function str_nat :: "nat \<Rightarrow> string" where
  "str_nat n = (if n < 10 then [digit_char n] else str_nat (n div 10) @ [digit_char (n mod 10)])"
  by pat_completeness auto
termination
  by (relation "measure (\<lambda>n. n)") auto

text \<open>
  \<open>logging.getLogger(name)\<close> returns the one logger of that name, so a logger is
  its name and \<open>handlers\<close> maps it to the files of its handlers. A new
  \<open>FileHandler\<close> opens its file for appending (creating it when absent) and is added to
  the logger's handlers; nothing removes a handler.
\<close>

definition log_path :: "string \<Rightarrow> nat \<Rightarrow> string" where
  "log_path experiment_type run_number =
     ''logs/'' @ experiment_type @ ''_run_'' @ str_nat run_number @ ''.log''"

definition setup_logger :: "string \<Rightarrow> nat \<Rightarrow> ('v, 's) world \<Rightarrow> string \<times> ('v, 's) world" where
  "setup_logger experiment_type run_number w =
     (let log_file = log_path experiment_type run_number
      in (experiment_type,
          w\<lparr>log_files := (case log_files w log_file of
                            None \<Rightarrow> (log_files w)(log_file \<mapsto> [])
                          | Some content \<Rightarrow> log_files w),
            handlers := (handlers w)(experiment_type := handlers w experiment_type @ [log_file])\<rparr>))"

text \<open>\<open>logger.info(msg)\<close>: every handler of the logger appends the message to its file.\<close>

definition append_line :: "message \<Rightarrow> string \<Rightarrow> (string \<rightharpoonup> message list) \<Rightarrow> (string \<rightharpoonup> message list)" where
  "append_line msg f files =
     files(f \<mapsto> (case files f of None \<Rightarrow> [] | Some content \<Rightarrow> content) @ [msg])"

definition logger_info :: "string \<Rightarrow> message \<Rightarrow> ('v, 's) world \<Rightarrow> ('v, 's) world" where
  "logger_info logger msg w =
     w\<lparr>log_files := fold (append_line msg) (handlers w logger) (log_files w)\<rparr>"

definition print :: "message \<Rightarrow> ('v, 's) world \<Rightarrow> ('v, 's) world" where
  "print msg w = w\<lparr>stdout := stdout w @ [msg]\<rparr>"

section \<open>The criterion\<close>

text \<open>
  \<open>nn.CrossEntropyLoss()\<close>, the criterion of both call sites (lines 172 and 180): the
  mean over the batch of the negative log-probability that the row's log-softmax gives the
  target class. It raises when the batch sizes of outputs and targets differ, and when a
  target is not the index of a class. Losses are real numbers.
\<close>

definition log_softmax :: "real list \<Rightarrow> real list" where
  "log_softmax xs = map (\<lambda>x. x - ln (sum_list (map exp xs))) xs"

definition CrossEntropyLoss :: "real list list \<Rightarrow> int list \<Rightarrow> py_error + real" where
  "CrossEntropyLoss outputs labels =
     (if length outputs \<noteq> length labels then Inl ValueError
      else if list_ex (\<lambda>(row, label). label < 0 \<or> int (length row) \<le> label) (zip outputs labels)
      then Inl IndexError
      else Inr (sum_list (map (\<lambda>(row, label). - (log_softmax row ! nat label)) (zip outputs labels))
                / real (length labels)))"

section \<open>The trainer (lines 111-142)\<close>

text \<open>\<open>(predicted == labels).sum().item()\<close>.\<close>

definition count_correct :: "int list \<Rightarrow> int list \<Rightarrow> nat" where
  "count_correct predicted labels = length (filter (\<lambda>(p, l). p = l) (zip predicted labels))"

text \<open>
  The inner loop (lines 119-132) over the batches of one epoch, with the running
  \<open>(epoch_loss, correct, total)\<close>. A batch whose fetch raised ends the loop with that
  exception, and so does a batch the criterion refuses.
\<close>

fun train_batches ::
  "('v, 'i, 's) torch \<Rightarrow> nat \<Rightarrow> (real list list \<Rightarrow> int list \<Rightarrow> py_error + real) \<Rightarrow> nat \<Rightarrow>
     (py_error + ('i list \<times> int list)) list \<Rightarrow>
     real \<times> nat \<times> nat \<Rightarrow> ('v, 's) world \<Rightarrow> (py_error + (real \<times> nat \<times> nat)) \<times> ('v, 's) world" where
  "train_batches T model criterion optimizer [] acc w = (Inr acc, w)"
| "train_batches T model criterion optimizer (Inl e # rest) acc w = (Inl e, w)"
| "train_batches T model criterion optimizer (Inr (imgs, labels) # rest) (epoch_loss, correct, total_n) w =
     (let outputs = model_call T model imgs w
      in case criterion outputs labels of
           Inl e \<Rightarrow> (Inl e, w)
         | Inr loss \<Rightarrow>
             (let w1 = zero_grad optimizer w
              in case backward T model imgs labels w1 of
                   (Inl e, w2) \<Rightarrow> (Inl e, w2)
                 | (Inr u, w2) \<Rightarrow>
                     (let w3 = adam_step T optimizer w2;
                          predicted = argmax T outputs
                      in train_batches T model criterion optimizer rest
                           (epoch_loss + loss, correct + count_correct predicted labels,
                            total_n + length labels)
                           w3)))"

text \<open>
  The outer loop (lines 114-140) over the epochs still to run, with the lists built so
  far. Dividing by \<open>len(train_loader)\<close> or by \<open>total\<close> raises when it is zero.
  \<open>logger\<close> is \<open>None\<close> or a logger.
\<close>

fun train_epochs ::
  "('v, 'i, 's) torch \<Rightarrow> nat \<Rightarrow> 'i data_loader \<Rightarrow> (real list list \<Rightarrow> int list \<Rightarrow> py_error + real) \<Rightarrow>
     nat \<Rightarrow> nat \<Rightarrow> string \<Rightarrow> string option \<Rightarrow>
     nat list \<Rightarrow> real list \<times> real list \<Rightarrow> ('v, 's) world \<Rightarrow>
     (py_error + (real list \<times> real list)) \<times> ('v, 's) world" where
  "train_epochs T model train_loader criterion optimizer num_epochs experiment_type logger []
     (train_losses, train_accuracies) w = (Inr (train_losses, train_accuracies), w)"
| "train_epochs T model train_loader criterion optimizer num_epochs experiment_type logger (epoch # rest)
     (train_losses, train_accuracies) w =
     (let w1 = model_train model w;
          (batches, w2) = loader_iter T train_loader w1
      in case train_batches T model criterion optimizer batches (0, 0, 0) w2 of
           (Inl e, w3) \<Rightarrow> (Inl e, w3)
         | (Inr (epoch_loss, correct, total_n), w3) \<Rightarrow>
             if loader_len train_loader = 0 then (Inl ZeroDivisionError, w3)
             else if total_n = 0 then (Inl ZeroDivisionError, w3)
             else
               (let mean_loss = epoch_loss / real (loader_len train_loader);
                    accuracy = 100 * real correct / real total_n;
                    msg = EpochMsg experiment_type (epoch + 1) num_epochs mean_loss accuracy;
                    w4 = (case logger of None \<Rightarrow> w3 | Some lg \<Rightarrow> logger_info lg msg w3);
                    w5 = print msg w4
                in train_epochs T model train_loader criterion optimizer num_epochs experiment_type logger rest
                     (train_losses @ [mean_loss], train_accuracies @ [accuracy]) w5))"

definition train_model ::
  "('v, 'i, 's) torch \<Rightarrow> nat \<Rightarrow> 'i data_loader \<Rightarrow> (real list list \<Rightarrow> int list \<Rightarrow> py_error + real) \<Rightarrow>
     nat \<Rightarrow> nat \<Rightarrow> string \<Rightarrow> string option \<Rightarrow>
     ('v, 's) world \<Rightarrow> (py_error + (real list \<times> real list)) \<times> ('v, 's) world" where
  "train_model T model train_loader criterion optimizer num_epochs experiment_type logger w =
     train_epochs T model train_loader criterion optimizer num_epochs experiment_type logger
       [0..<num_epochs] ([], []) w"

section \<open>The evaluator (lines 145-157)\<close>

fun test_batches ::
  "('v, 'i, 's) torch \<Rightarrow> nat \<Rightarrow> (py_error + ('i list \<times> int list)) list \<Rightarrow>
     nat \<times> nat \<Rightarrow> ('v, 's) world \<Rightarrow> py_error + (nat \<times> nat)" where
  "test_batches T model [] acc w = Inr acc"
| "test_batches T model (Inl e # rest) acc w = Inl e"
| "test_batches T model (Inr (imgs, labels) # rest) (correct, total_n) w =
     (let outputs = model_call T model imgs w;
          predicted = argmax T outputs
      in test_batches T model rest
           (correct + count_correct predicted labels, total_n + length labels) w)"

definition test_model ::
  "('v, 'i, 's) torch \<Rightarrow> nat \<Rightarrow> 'i data_loader \<Rightarrow> ('v, 's) world \<Rightarrow>
     (py_error + real) \<times> ('v, 's) world" where
  "test_model T model loader w =
     (let w1 = model_eval model w;
          (batches, w2) = loader_iter T loader w1
      in case test_batches T model batches (0, 0) w2 of
           Inl e \<Rightarrow> (Inl e, w2)
         | Inr (correct, total_n) \<Rightarrow>
             if total_n = 0 then (Inl ZeroDivisionError, w2)
             else (Inr (100 * real correct / real total_n), w2))"

section \<open>The experiment (lines 160-226)\<close>

text \<open>Lines 171-175: the non-transfer branch.\<close>

definition non_transfer_branch ::
  "('v, 'i, 's) torch \<Rightarrow> nat \<Rightarrow> 'i data_loader \<Rightarrow> nat \<Rightarrow> nat \<Rightarrow> string \<Rightarrow> ('v, 's) world \<Rightarrow>
     (py_error + (real list \<times> real list)) \<times> ('v, 's) world" where
  "non_transfer_branch T model small_loader num_epochs run logger w =
     (case Adam (model_parameters (modules w model)) w of
        (Inl e, w1) \<Rightarrow> (Inl e, w1)
      | (Inr optimizer, w1) \<Rightarrow>
          (let w2 = print (StartNonTransferMsg (run + 1)) w1;
               w3 = logger_info logger (StartNonTransferMsg (run + 1)) w2
           in train_model T model small_loader CrossEntropyLoss optimizer num_epochs ''Non-Transfer''
                (Some logger) w3))"

text \<open>Lines 186-189: \<open>requires_grad = False\<close> on each parameter of a layer.\<close>

definition freeze :: "nat list \<Rightarrow> ('v, 's) world \<Rightarrow> ('v, 's) world" where
  "freeze ps w =
     w\<lparr>tensors := fold (\<lambda>p t. t(p := (t p)\<lparr>requires_grad := False\<rparr>)) ps (tensors w)\<rparr>"

text \<open>
  Lines 186-195: the two convolution layers are frozen, \<open>model.fc1\<close> is replaced by a new
  linear layer, and a new optimizer is built from the parameters of the model that still
  require a gradient.
\<close>

definition freeze_and_replace ::
  "('v, 'i, 's) torch \<Rightarrow> nat \<Rightarrow> ('v, 's) world \<Rightarrow> (py_error + nat) \<times> ('v, 's) world" where
  "freeze_and_replace T model w =
     (let w1 = freeze (layer_parameters (conv1 (modules w model))) w;
          w2 = freeze (layer_parameters (conv2 (modules w1 model))) w1;
          (new_fc1, w3) = new_layer T w2;
          w4 = w3\<lparr>modules := (modules w3)(model := (modules w3 model)\<lparr>fc1 := new_fc1\<rparr>)\<rparr>;
          params_to_train =
            filter (\<lambda>p. requires_grad (tensors w4 p)) (model_parameters (modules w4 model))
      in Adam params_to_train w4)"

text \<open>Lines 178-198: the transfer branch. What the first \<open>train_model\<close> returns is dropped.\<close>

definition transfer_branch ::
  "('v, 'i, 's) torch \<Rightarrow> nat \<Rightarrow> 'i data_loader \<Rightarrow> 'i data_loader \<Rightarrow> nat \<Rightarrow> nat \<Rightarrow> string \<Rightarrow>
     ('v, 's) world \<Rightarrow> (py_error + (real list \<times> real list)) \<times> ('v, 's) world" where
  "transfer_branch T model big_loader small_loader num_epochs run logger w =
     (case Adam (model_parameters (modules w model)) w of
        (Inl e, w1) \<Rightarrow> (Inl e, w1)
      | (Inr optimizer, w1) \<Rightarrow>
          (let w2 = logger_info logger (StartTransferMsg (run + 1)) w1;
               w3 = print (StartTransferMsg (run + 1)) w2
           in case train_model T model big_loader CrossEntropyLoss optimizer num_epochs ''Transfer''
                     (Some logger) w3 of
                (Inl e, w4) \<Rightarrow> (Inl e, w4)
              | (Inr pretraining, w4) \<Rightarrow>
                  (case freeze_and_replace T model w4 of
                     (Inl e, w5) \<Rightarrow> (Inl e, w5)
                   | (Inr optimizer2, w5) \<Rightarrow>
                       train_model T model small_loader CrossEntropyLoss optimizer2 num_epochs
                         ''Transfer'' (Some logger) w5)))"

text \<open>Lines 208-224: the figure of one run, saved under the run's name.\<close>

definition run_image_path :: "string \<Rightarrow> nat \<Rightarrow> string" where
  "run_image_path model_type run_number =
     ''images/'' @ model_type @ ''_'' @ str_nat run_number @ ''_performance.png''"

definition savefig :: "string \<Rightarrow> plot \<Rightarrow> ('v, 's) world \<Rightarrow> ('v, 's) world" where
  "savefig path fig w = w\<lparr>saved_images := saved_images w @ [(path, fig)]\<rparr>"

text \<open>
  One pass of the loop body (lines 165-224). The local variables \<open>losses\<close> and
  \<open>accuracies\<close> are bound by the two branches only; reading \<open>losses\<close> while it is
  unbound raises.
\<close>

definition run_body ::
  "('v, 'i, 's) torch \<Rightarrow> nat \<Rightarrow> string \<Rightarrow> 'i data_loader \<Rightarrow> 'i data_loader \<Rightarrow> 'i data_loader \<Rightarrow>
     nat \<Rightarrow> nat \<Rightarrow> real list \<times> real list list \<Rightarrow> ('v, 's) world \<Rightarrow>
     (py_error + (real list \<times> real list list)) \<times> ('v, 's) world" where
  "run_body T num_runs model_type big_loader small_loader tst_loader num_epochs run acc w =
     (let (all_accuracies, all_losses) = acc;
          (logger, w1) = setup_logger model_type (run + 1) w;
          w2 = logger_info logger (RunMsg (run + 1) num_runs) w1;
          w3 = print (RunMsg (run + 1) num_runs) w2;
          (model, w4) = MNISTNet T w3;
          (trained, w5) =
            (if model_type = ''non_transfer''
             then (case non_transfer_branch T model small_loader num_epochs run logger w4 of
                     (Inl e, w') \<Rightarrow> (Inl e, w')
                   | (Inr r, w') \<Rightarrow> (Inr (Some r), w'))
             else if model_type = ''transfer''
             then (case transfer_branch T model big_loader small_loader num_epochs run logger w4 of
                     (Inl e, w') \<Rightarrow> (Inl e, w')
                   | (Inr r, w') \<Rightarrow> (Inr (Some r), w'))
             else (Inr None, w4))
      in case trained of
           Inl e \<Rightarrow> (Inl e, w5)
         | Inr bound \<Rightarrow>
             (case test_model T model tst_loader w5 of
                (Inl e, w6) \<Rightarrow> (Inl e, w6)
              | (Inr accuracy, w6) \<Rightarrow>
                  (let w7 = print (TestAccuracyMsg model_type accuracy) w6;
                       w8 = logger_info logger (TestAccuracyMsg model_type accuracy) w7
                   in case bound of
                        None \<Rightarrow> (Inl (UnboundLocalError ''losses''), w8)
                      | Some (losses, accuracies) \<Rightarrow>
                          (Inr (all_accuracies @ [accuracy], all_losses @ [losses]),
                           savefig (run_image_path model_type (run + 1))
                             \<lparr>accuracy_curve = accuracies, loss_curve = losses\<rparr> w8))))"

text \<open>The loop over \<open>range(num_runs)\<close>; an exception in one run ends the loop.\<close>

fun run_loop ::
  "('v, 'i, 's) torch \<Rightarrow> nat \<Rightarrow> string \<Rightarrow> 'i data_loader \<Rightarrow> 'i data_loader \<Rightarrow> 'i data_loader \<Rightarrow>
     nat \<Rightarrow> nat list \<Rightarrow> real list \<times> real list list \<Rightarrow> ('v, 's) world \<Rightarrow>
     (py_error + (real list \<times> real list list)) \<times> ('v, 's) world" where
  "run_loop T num_runs model_type big_loader small_loader tst_loader num_epochs [] acc w = (Inr acc, w)"
| "run_loop T num_runs model_type big_loader small_loader tst_loader num_epochs (run # rest) acc w =
     (case run_body T num_runs model_type big_loader small_loader tst_loader num_epochs run acc w of
        (Inl e, w') \<Rightarrow> (Inl e, w')
      | (Inr acc', w') \<Rightarrow>
          run_loop T num_runs model_type big_loader small_loader tst_loader num_epochs rest acc' w')"

definition run_experiment ::
  "('v, 'i, 's) torch \<Rightarrow> nat \<Rightarrow> string \<Rightarrow> 'i data_loader \<Rightarrow> 'i data_loader \<Rightarrow> 'i data_loader \<Rightarrow>
     nat \<Rightarrow> ('v, 's) world \<Rightarrow> (py_error + (real list \<times> real list list)) \<times> ('v, 's) world" where
  "run_experiment T num_runs model_type big_loader small_loader tst_loader num_epochs w =
     run_loop T num_runs model_type big_loader small_loader tst_loader num_epochs
       [0..<num_runs] ([], []) w"

section \<open>Top level (lines 229-268)\<close>

definition num_runs :: nat where
  "num_runs = 10"

definition num_epochs :: nat where
  "num_epochs = 10"

definition np_save :: "string \<Rightarrow> npy \<Rightarrow> ('v, 's) world \<Rightarrow> ('v, 's) world" where
  "np_save path arr w = w\<lparr>npy_files := npy_files w @ [(path, arr)]\<rparr>"

text \<open>\<open>np.mean(losses, axis=1)\<close>: the mean of each run's losses.\<close>

definition np_mean_axis1 :: "real list list \<Rightarrow> real list" where
  "np_mean_axis1 losses = map (\<lambda>row. sum_list row / real (length row)) losses"

definition plot_results :: "real list \<Rightarrow> real list list \<Rightarrow> string \<Rightarrow> ('v, 's) world \<Rightarrow> ('v, 's) world" where
  "plot_results accuracies losses title w =
     savefig (''images/'' @ title @ ''_final_performance.png'')
       \<lparr>accuracy_curve = accuracies, loss_curve = np_mean_axis1 losses\<rparr> w"

text \<open>The script, from the two MNIST partitions it loads.\<close>

definition main ::
  "('v, 'i, 's) torch \<Rightarrow> 'i mnist \<Rightarrow> 'i mnist \<Rightarrow> ('v, 's) world \<Rightarrow>
     (py_error + unit) \<times> ('v, 's) world" where
  "main T full_train_dataset test_dataset w =
     (let big_loader = big_train_loader full_train_dataset;
          small_loader = small_train_loader full_train_dataset;
          tst_loader = test_loader test_dataset;
          w1 = print (Text ''Running Non-Transfer Experiment...'') w
      in case run_experiment T num_runs ''non_transfer'' big_loader small_loader tst_loader num_epochs w1 of
           (Inl e, w2) \<Rightarrow> (Inl e, w2)
         | (Inr (non_transfer_accuracies, non_transfer_losses), w2) \<Rightarrow>
             (let w3 = print (Text ''Running Transfer Experiment...'') w2
              in case run_experiment T num_runs ''transfer'' big_loader small_loader tst_loader num_epochs w3 of
                   (Inl e, w4) \<Rightarrow> (Inl e, w4)
                 | (Inr (transfer_accuracies, transfer_losses), w4) \<Rightarrow>
                     (let w5 = np_save ''logs/non_transfer_accuracies.npy'' (Array1 non_transfer_accuracies) w4;
                          w6 = np_save ''logs/non_transfer_losses.npy'' (Array2 non_transfer_losses) w5;
                          w7 = np_save ''logs/transfer_accuracies.npy'' (Array1 transfer_accuracies) w6;
                          w8 = np_save ''logs/transfer_losses.npy'' (Array2 transfer_losses) w7;
                          w9 = plot_results non_transfer_accuracies non_transfer_losses
                                 ''Non-Transfer Experiment'' w8;
                          w10 = plot_results transfer_accuracies transfer_losses
                                  ''Transfer Experiment'' w9
                      in (Inr (), print (Text ''Experiments completed and results saved.'') w10))))"

section \<open>Vocabulary of the statements\<close>

text \<open>A model can be trained when at least one of its parameters requires a gradient.\<close>

definition trainable :: "nat \<Rightarrow> ('v, 's) world \<Rightarrow> bool" where
  "trainable model w \<longleftrightarrow>
     filter (\<lambda>p. requires_grad (tensors w p)) (model_parameters (modules w model)) \<noteq> []"

text \<open>Every position of the dataset can be read: its index is in range and its label is a
  key of the label map.\<close>

definition fetchable :: "'i remap_labels_dataset \<Rightarrow> bool" where
  "fetchable ds \<longleftrightarrow> list_all (\<lambda>i. isl (remap_getitem ds (int i)) = False) [0..<remap_len ds]"

text \<open>What is assumed of the library's \<open>randperm\<close>: it returns a permutation of
  \<open>0, ..., n - 1\<close>.\<close>

definition randperm_ok :: "('v, 'i, 's) torch \<Rightarrow> bool" where
  "randperm_ok T \<longleftrightarrow> (\<forall>g n. distinct (randperm T g n) \<and> set (randperm T g n) = {..<n})"

text \<open>Every item of the dataset that can be read has one of the class indices
  \<open>0, ..., k - 1\<close> as its label.\<close>

definition class_labels :: "nat \<Rightarrow> 'i remap_labels_dataset \<Rightarrow> bool" where
  "class_labels k ds \<longleftrightarrow>
     list_all (\<lambda>i. case remap_getitem ds (int i) of
                       Inl e \<Rightarrow> True
                     | Inr (img, label) \<Rightarrow> 0 \<le> label \<and> label < int k)
              [0..<remap_len ds]"

text \<open>What is assumed of the library's forward pass: one row of \<open>k\<close> class scores per
  image.\<close>

definition forward_shape :: "('v, 'i, 's) torch \<Rightarrow> nat \<Rightarrow> bool" where
  "forward_shape T k \<longleftrightarrow>
     (\<forall>vals imgs. length (forward T vals imgs) = length imgs
        \<and> (\<forall>row \<in> set (forward T vals imgs). length row = k))"

text \<open>A loader that yields at least one batch and whose every item can be read.\<close>

definition loader_ok :: "'i data_loader \<Rightarrow> bool" where
  "loader_ok dl \<longleftrightarrow>
     0 < batch_size dl \<and> 0 < remap_len (dl_dataset dl) \<and> fetchable (dl_dataset dl)"

text \<open>The effect on the files of logging the messages \<open>ms\<close>, in this order, through
  handlers on the files \<open>hs\<close>.\<close>

definition log_all :: "string list \<Rightarrow> message list \<Rightarrow> (string \<rightharpoonup> message list) \<Rightarrow> (string \<rightharpoonup> message list)" where
  "log_all hs ms files = fold (\<lambda>m. fold (append_line m) hs) ms files"

text \<open>The messages the trainer emits for the epochs \<open>es\<close> with the mean losses
  \<open>ls\<close> and the accuracies \<open>as\<close>.\<close>

definition epoch_msgs :: "string \<Rightarrow> nat \<Rightarrow> nat list \<Rightarrow> real list \<Rightarrow> real list \<Rightarrow> message list" where
  "epoch_msgs experiment_type n es ls as =
     map (\<lambda>(epoch, l, a). EpochMsg experiment_type (epoch + 1) n l a) (zip es (zip ls as))"

text \<open>The values \<open>loss.item()\<close> takes in the inner loop, batch by batch, the state
  evolving as in \<open>train_batches\<close>.\<close>

fun batch_losses ::
  "('v, 'i, 's) torch \<Rightarrow> nat \<Rightarrow> (real list list \<Rightarrow> int list \<Rightarrow> py_error + real) \<Rightarrow> nat \<Rightarrow>
     (py_error + ('i list \<times> int list)) list \<Rightarrow> ('v, 's) world \<Rightarrow> real list" where
  "batch_losses T model criterion optimizer [] w = []"
| "batch_losses T model criterion optimizer (Inl e # rest) w = []"
| "batch_losses T model criterion optimizer (Inr (imgs, labels) # rest) w =
     (case criterion (model_call T model imgs w) labels of
        Inl e \<Rightarrow> []
      | Inr loss \<Rightarrow>
          (case backward T model imgs labels (zero_grad optimizer w) of
             (Inl e, w2) \<Rightarrow> []
           | (Inr u, w2) \<Rightarrow>
               loss # batch_losses T model criterion optimizer rest (adam_step T optimizer w2)))"

text \<open>What no step of the trainer or the evaluator changes: the allocation counter, the
  layers of every model, the \<open>requires_grad\<close> flag of every parameter, the parameter
  list of every optimizer, the handlers, the saved figures and the saved arrays.\<close>

definition same_shape :: "('v, 's) world \<Rightarrow> ('v, 's) world \<Rightarrow> bool" where
  "same_shape w w' \<longleftrightarrow>
     next_id w' = next_id w
     \<and> (\<forall>m. conv1 (modules w' m) = conv1 (modules w m) \<and> conv2 (modules w' m) = conv2 (modules w m)
            \<and> fc1 (modules w' m) = fc1 (modules w m))
     \<and> (\<forall>q. requires_grad (tensors w' q) = requires_grad (tensors w q))
     \<and> (\<forall>x. params (optimizers w' x) = params (optimizers w x))
     \<and> handlers w' = handlers w
     \<and> saved_images w' = saved_images w
     \<and> npy_files w' = npy_files w"

text \<open>What training with one optimizer leaves alone: the optimizer's parameter list, every
  \<open>requires_grad\<close> flag, the value of every parameter outside that list, and the whole
  of every parameter outside it that requires no gradient.\<close>

definition frame_outside :: "nat \<Rightarrow> ('v, 's) world \<Rightarrow> ('v, 's) world \<Rightarrow> bool" where
  "frame_outside optimizer w w' \<longleftrightarrow>
     params (optimizers w' optimizer) = params (optimizers w optimizer)
     \<and> (\<forall>q. requires_grad (tensors w' q) = requires_grad (tensors w q))
     \<and> (\<forall>q. q \<notin> set (params (optimizers w optimizer)) \<longrightarrow>
            data (tensors w' q) = data (tensors w q)
            \<and> (\<not> requires_grad (tensors w q) \<longrightarrow> tensors w' q = tensors w q))"

text \<open>
  A relation between states that holds across every step the trainer and the evaluator
  take on the models \<open>Ms\<close> with the optimizers \<open>Os\<close>: it then holds from the state
  before a call to the state after it.
\<close>

definition steps_closed ::
  "('v, 'i, 's) torch \<Rightarrow> nat set \<Rightarrow> nat set \<Rightarrow> (('v, 's) world \<Rightarrow> ('v, 's) world \<Rightarrow> bool) \<Rightarrow> bool" where
  "steps_closed T Ms Os R \<longleftrightarrow>
     (\<forall>w. R w w)
     \<and> (\<forall>a b c. R a b \<longrightarrow> R b c \<longrightarrow> R a c)
     \<and> (\<forall>optimizer \<in> Os. \<forall>w. R w (zero_grad optimizer w))
     \<and> (\<forall>optimizer \<in> Os. \<forall>w. R w (adam_step T optimizer w))
     \<and> (\<forall>model \<in> Ms. \<forall>imgs labels w. R w (snd (backward T model imgs labels w)))
     \<and> (\<forall>model \<in> Ms. \<forall>w. R w (model_train model w))
     \<and> (\<forall>model \<in> Ms. \<forall>w. R w (model_eval model w))
     \<and> (\<forall>w. R w (w\<lparr>rng := Suc (rng w)\<rparr>))
     \<and> (\<forall>logger msg w. R w (logger_info logger msg w))
     \<and> (\<forall>msg w. R w (print msg w))"

text \<open>The same for every step of an experiment, which also creates models, layers and
  optimizers, freezes parameters, attaches handlers and saves figures.\<close>

definition run_closed ::
  "('v, 'i, 's) torch \<Rightarrow> (('v, 's) world \<Rightarrow> ('v, 's) world \<Rightarrow> bool) \<Rightarrow> bool" where
  "run_closed T R \<longleftrightarrow>
     steps_closed T UNIV UNIV R
     \<and> (\<forall>w. R w (snd (new_parameter T w)))
     \<and> (\<forall>w net. R w (w\<lparr>modules := (modules w)(next_id w := net), next_id := Suc (next_id w)\<rparr>))
     \<and> (\<forall>w model l. R w (w\<lparr>modules := (modules w)(model := (modules w model)\<lparr>fc1 := l\<rparr>)\<rparr>))
     \<and> (\<forall>ps w. R w (snd (Adam ps w)))
     \<and> (\<forall>ps w. R w (freeze ps w))
     \<and> (\<forall>t n w. R w (snd (setup_logger t n w)))
     \<and> (\<forall>path fig w. R w (savefig path fig w))"

text \<open>The state of a process that has allocated nothing, attached no handler and written
  nothing; \<open>v\<close> fills the unallocated tensors.\<close>

definition fresh_world :: "'v \<Rightarrow> ('v, 's) world" where
  "fresh_world v =
     \<lparr>rng = 0, next_id = 0,
      tensors = (\<lambda>p. \<lparr>data = v, requires_grad = False, grad = None\<rparr>),
      modules = (\<lambda>m. \<lparr>conv1 = \<lparr>weight = 0, bias = 0\<rparr>, conv2 = \<lparr>weight = 0, bias = 0\<rparr>,
                       fc1 = \<lparr>weight = 0, bias = 0\<rparr>, training = False\<rparr>),
      optimizers = (\<lambda>x. \<lparr>params = [], state = Map.empty\<rparr>),
      handlers = (\<lambda>name. []),
      log_files = Map.empty,
      stdout = [],
      saved_images = [],
      npy_files = []\<rparr>"

text \<open>
  A small instance of the library, on which the definitions can be evaluated: tensors are
  integers, images are numbers, the network gives score 0 to class
  \<open>(sum of the parameters + image) mod 5\<close> and score -1 to the other four classes,
  \<open>argmax\<close> is the position of the first maximal score of a row, every gradient is
  \<open>g\<close> and the update subtracts the gradient.
\<close>

definition example_torch :: "int \<Rightarrow> (int, nat, unit) torch" where
  "example_torch g =
     \<lparr>init_tensor = (\<lambda>n. int n),
      randperm = (\<lambda>s n. rev [0..<n]),
      forward = (\<lambda>vals imgs.
        map (\<lambda>i. map (\<lambda>j. if int j = (sum_list vals + int i) mod 5 then 0 else - 1) [0..<5]) imgs),
      argmax = (\<lambda>out. map (\<lambda>row. int (length (takeWhile (\<lambda>x. x \<noteq> Max (set row)) row))) out),
      loss_grad = (\<lambda>vals imgs labels. map (\<lambda>v. g) vals),
      add_grad = (\<lambda>a b. a + b),
      adam_update = (\<lambda>s v d. ((), v - d))\<rparr>"

text \<open>Two small MNIST partitions (images are numbers) and the state in which a new model
  and its optimizer have just been created, for evaluating the definitions.\<close>

definition example_train :: "nat mnist" where
  "example_train = [(0, 0), (1, 1), (2, 2), (3, 3), (4, 5), (5, 4)]"

definition example_test :: "nat mnist" where
  "example_test = [(6, 1), (7, 4), (8, 9)]"

definition example_world :: "int \<Rightarrow> (int, unit) world" where
  "example_world g =
     (let (model, w1) = MNISTNet (example_torch g) (fresh_world 0)
      in snd (Adam (model_parameters (modules w1 model)) w1))"

section \<open>Selecting positions by label\<close>

lemma enum_filter_gen:
  "[i. (i, (img, lbl)) \<leftarrow> enumerate n ds, P lbl] =
     map (\<lambda>i. i + n) (filter (\<lambda>i. P (snd (ds ! i))) [0..<length ds])"
proof (induction ds arbitrary: n)
  case Nil
  show ?case by simp
next
  case (Cons x xs)
  have upt: "[0..<length (x # xs)] = 0 # map Suc [0..<length xs]"
    by (simp add: upt_conv_Cons map_Suc_upt del: upt_Suc)
  show ?case
    unfolding upt using Cons [of "Suc n"]
    by (cases x) (simp add: filter_map comp_def)
qed

lemma label_indices_filter:
  "label_indices ds l = filter (\<lambda>i. snd (ds ! i) = l) [0..<length ds]"
  unfolding label_indices_def using enum_filter_gen [where n=0 and ds=ds and P="\<lambda>lbl. lbl = l"] by simp

lemma train_indices_filter:
  "train_indices ds = filter (\<lambda>i. snd (ds ! i) \<in> {0, 2, 4, 6, 8}) [0..<length ds]"
  unfolding train_indices_def using enum_filter_gen [where n=0 and ds=ds and P="\<lambda>lbl. lbl \<in> set [0, 2, 4, 6, 8]"] by simp

lemma extend_per_label_concat:
  "extend_per_label ds cap labels acc =
     acc @ concat (map (\<lambda>l. take cap (label_indices ds l)) labels)"
  by (induction labels arbitrary: acc) simp_all

lemma length_label_indices:
  "length (label_indices ds l) = length (filter (\<lambda>(img, lbl). lbl = l) ds)"
proof -
  have "filter (\<lambda>(img, lbl). lbl = l) ds = map (\<lambda>i. ds ! i) (label_indices ds l)"
    unfolding label_indices_filter
    by (subst (1) map_nth [symmetric, of ds]) (simp add: filter_map comp_def case_prod_unfold)
  then show ?thesis by simp
qed


lemma label_of_label_indices:
  "i \<in> set (label_indices ds l) \<Longrightarrow> i < length ds \<and> snd (ds ! i) = l"
  by (simp add: label_indices_filter)

lemma filter_take_label_indices:
  "filter (\<lambda>i. snd (ds ! i) = l) (take cap (label_indices ds l')) =
     (if l = l' then take cap (label_indices ds l') else [])"
proof (cases "l = l'")
  case True
  have "\<forall>i \<in> set (take cap (label_indices ds l')). snd (ds ! i) = l'"
    using label_of_label_indices by (metis in_set_takeD)
  with True show ?thesis by simp
next
  case False
  have "\<forall>i \<in> set (take cap (label_indices ds l')). snd (ds ! i) \<noteq> l"
    using label_of_label_indices False by (metis in_set_takeD)
  with False show ?thesis by simp
qed

lemma filter_extend_per_label:
  "distinct labels \<Longrightarrow>
   filter (\<lambda>i. snd (ds ! i) = l) (extend_per_label ds cap labels []) =
     (if l \<in> set labels then take cap (label_indices ds l) else [])"
  unfolding extend_per_label_concat
  by (induction labels) (auto simp: filter_take_label_indices)

lemma set_extend_per_label:
  "set (extend_per_label ds cap labels []) =
     (\<Union>l \<in> set labels. set (take cap (label_indices ds l)))"
  by (simp add: extend_per_label_concat)

lemma labels_extend_per_label:
  assumes "0 < cap" and "\<forall>l \<in> set labels. cap \<le> length (label_indices ds l)"
  shows "(\<lambda>i. snd (ds ! i)) ` set (extend_per_label ds cap labels []) = set labels"
proof (intro equalityI subsetI)
  fix l assume "l \<in> (\<lambda>i. snd (ds ! i)) ` set (extend_per_label ds cap labels [])"
  then obtain i l' where "l' \<in> set labels" "i \<in> set (take cap (label_indices ds l'))" "l = snd (ds ! i)"
    by (auto simp: set_extend_per_label)
  then show "l \<in> set labels"
    using label_of_label_indices by (metis in_set_takeD)
next
  fix l assume l: "l \<in> set labels"
  with assms have "take cap (label_indices ds l) \<noteq> []" by auto
  then obtain i where i: "i \<in> set (take cap (label_indices ds l))"
    by (meson last_in_set)
  then have "snd (ds ! i) = l"
    using label_of_label_indices by (metis in_set_takeD)
  with i l show "l \<in> (\<lambda>i. snd (ds ! i)) ` set (extend_per_label ds cap labels [])"
    by (force simp: set_extend_per_label)
qed

lemma extend_per_label_spec:
  assumes "distinct labels" and "0 < cap"
    and "\<forall>l \<in> set labels. cap \<le> length (filter (\<lambda>(img, lbl). lbl = l) ds)"
  shows "\<forall>l. length (filter (\<lambda>i. snd (ds ! i) = l) (extend_per_label ds cap labels [])) \<le> cap"
    and "(\<lambda>i. snd (ds ! i)) ` set (extend_per_label ds cap labels []) = set labels"
    and "\<forall>l \<in> set labels. filter (\<lambda>i. snd (ds ! i) = l) (extend_per_label ds cap labels []) =
             take cap (filter (\<lambda>i. snd (ds ! i) = l) [0..<length ds])"
    and "\<forall>l \<in> set labels. length (filter (\<lambda>i. snd (ds ! i) = l) (extend_per_label ds cap labels [])) = cap"
    and "set (extend_per_label ds cap labels []) \<subseteq> {..<length ds}"
    and "extend_per_label ds cap labels [] =
             concat (map (\<lambda>l. take cap (filter (\<lambda>i. snd (ds ! i) = l) [0..<length ds])) labels)"
proof -
  have len: "\<forall>l \<in> set labels. cap \<le> length (label_indices ds l)"
    using assms(3) by (simp add: length_label_indices)
  show "\<forall>l. length (filter (\<lambda>i. snd (ds ! i) = l) (extend_per_label ds cap labels [])) \<le> cap"
    by (simp add: filter_extend_per_label [OF assms(1)])
  show "(\<lambda>i. snd (ds ! i)) ` set (extend_per_label ds cap labels []) = set labels"
    by (rule labels_extend_per_label [OF assms(2) len])
  show "\<forall>l \<in> set labels. filter (\<lambda>i. snd (ds ! i) = l) (extend_per_label ds cap labels []) =
             take cap (filter (\<lambda>i. snd (ds ! i) = l) [0..<length ds])"
    by (simp add: filter_extend_per_label [OF assms(1)] label_indices_filter)
  show "\<forall>l \<in> set labels. length (filter (\<lambda>i. snd (ds ! i) = l) (extend_per_label ds cap labels [])) = cap"
    using len by (simp add: filter_extend_per_label [OF assms(1)])
  show "set (extend_per_label ds cap labels []) \<subseteq> {..<length ds}"
    using label_of_label_indices by (fastforce simp: set_extend_per_label dest: in_set_takeD)
  show "extend_per_label ds cap labels [] =
             concat (map (\<lambda>l. take cap (filter (\<lambda>i. snd (ds ! i) = l) [0..<length ds])) labels)"
    by (simp add: extend_per_label_concat label_indices_filter)
qed

lemma odd_labels_set: "set [1, 3, 5, 7, 9 :: int] = {1, 3, 5, 7, 9}"
  by simp

lemma small_train_indices_spec:
  assumes "\<forall>l \<in> {1, 3, 5, 7, 9}. 20 \<le> length (filter (\<lambda>(img, lbl). lbl = l) ds)"
  shows "\<forall>l. length (filter (\<lambda>i. snd (ds ! i) = l) (small_train_indices ds)) \<le> 20"
    and "(\<lambda>i. snd (ds ! i)) ` set (small_train_indices ds) = {1, 3, 5, 7, 9}"
    and "\<forall>l \<in> {1, 3, 5, 7, 9}. filter (\<lambda>i. snd (ds ! i) = l) (small_train_indices ds) =
             take 20 (filter (\<lambda>i. snd (ds ! i) = l) [0..<length ds])"
    and "set (small_train_indices ds) \<subseteq> {..<length ds}"
    and "small_train_indices ds =
             concat (map (\<lambda>l. take 20 (filter (\<lambda>i. snd (ds ! i) = l) [0..<length ds])) [1, 3, 5, 7, 9])"
proof -
  have d: "distinct [1, 3, 5, 7, 9 :: int]" by simp
  have c: "0 < (20 :: nat)" by simp
  have h: "\<forall>l \<in> set [1, 3, 5, 7, 9]. 20 \<le> length (filter (\<lambda>(img, lbl). lbl = l) ds)"
    unfolding odd_labels_set by (rule assms)
  note spec = extend_per_label_spec [OF d c h, folded small_train_indices_def, unfolded odd_labels_set]
  show "\<forall>l. length (filter (\<lambda>i. snd (ds ! i) = l) (small_train_indices ds)) \<le> 20"
    by (rule spec(1))
  show "(\<lambda>i. snd (ds ! i)) ` set (small_train_indices ds) = {1, 3, 5, 7, 9}"
    by (rule spec(2))
  show "\<forall>l \<in> {1, 3, 5, 7, 9}. filter (\<lambda>i. snd (ds ! i) = l) (small_train_indices ds) =
             take 20 (filter (\<lambda>i. snd (ds ! i) = l) [0..<length ds])"
    by (rule spec(3))
  show "set (small_train_indices ds) \<subseteq> {..<length ds}"
    by (rule spec(5))
  show "small_train_indices ds =
             concat (map (\<lambda>l. take 20 (filter (\<lambda>i. snd (ds ! i) = l) [0..<length ds])) [1, 3, 5, 7, 9])"
    by (rule spec(6))
qed


lemma test_indices_spec:
  assumes "\<forall>l \<in> {1, 3, 5, 7, 9}. 200 \<le> length (filter (\<lambda>(img, lbl). lbl = l) ds)"
  shows "\<forall>l. length (filter (\<lambda>i. snd (ds ! i) = l) (test_indices ds)) \<le> 200"
    and "(\<lambda>i. snd (ds ! i)) ` set (test_indices ds) = {1, 3, 5, 7, 9}"
    and "\<forall>l \<in> {1, 3, 5, 7, 9}. filter (\<lambda>i. snd (ds ! i) = l) (test_indices ds) =
             take 200 (filter (\<lambda>i. snd (ds ! i) = l) [0..<length ds])"
    and "set (test_indices ds) \<subseteq> {..<length ds}"
    and "test_indices ds =
             concat (map (\<lambda>l. take 200 (filter (\<lambda>i. snd (ds ! i) = l) [0..<length ds])) [1, 3, 5, 7, 9])"
proof -
  have d: "distinct [1, 3, 5, 7, 9 :: int]" by simp
  have c: "0 < (200 :: nat)" by simp
  have h: "\<forall>l \<in> set [1, 3, 5, 7, 9]. 200 \<le> length (filter (\<lambda>(img, lbl). lbl = l) ds)"
    unfolding odd_labels_set by (rule assms)
  note spec = extend_per_label_spec [OF d c h, folded test_indices_def, unfolded odd_labels_set]
  show "\<forall>l. length (filter (\<lambda>i. snd (ds ! i) = l) (test_indices ds)) \<le> 200"
    by (rule spec(1))
  show "(\<lambda>i. snd (ds ! i)) ` set (test_indices ds) = {1, 3, 5, 7, 9}"
    by (rule spec(2))
  show "\<forall>l \<in> {1, 3, 5, 7, 9}. filter (\<lambda>i. snd (ds ! i) = l) (test_indices ds) =
             take 200 (filter (\<lambda>i. snd (ds ! i) = l) [0..<length ds])"
    by (rule spec(3))
  show "set (test_indices ds) \<subseteq> {..<length ds}"
    by (rule spec(5))
  show "test_indices ds =
             concat (map (\<lambda>l. take 200 (filter (\<lambda>i. snd (ds ! i) = l) [0..<length ds])) [1, 3, 5, 7, 9])"
    by (rule spec(6))
qed

lemma length_filter_concat_replicate:
  "length (filter P (concat (replicate n xs))) = n * length (filter P xs)"
  by (induction n) simp_all

text \<open>
  C2. Through the remapper with the even map, an item whose label is 0, 2, 4, 6 or 8 is
  returned with the label 0, 1, 2, 3 or 4 that the fixed map gives it, and through the
  remapper with the odd map an item whose label is 1, 3, 5, 7 or 9 likewise.
\<close>

theorem remap_getitem_fixed_maps:
  "(subset_getitem s idx = Inr (img, L) \<and> L \<in> {0, 2, 4, 6, 8} \<longrightarrow>
      remap_getitem (RemapLabelsDataset s even_label_map) idx = Inr (img, L div 2)
      \<and> (L, L div 2) \<in> {(0, 0), (2, 1), (4, 2), (6, 3), (8, 4)}
      \<and> L div 2 \<in> {0, 1, 2, 3, 4})
   \<and> (subset_getitem s idx = Inr (img, L) \<and> L \<in> {1, 3, 5, 7, 9} \<longrightarrow>
      remap_getitem (RemapLabelsDataset s odd_label_map) idx = Inr (img, L div 2)
      \<and> (L, L div 2) \<in> {(1, 0), (3, 1), (5, 2), (7, 3), (9, 4)}
      \<and> L div 2 \<in> {0, 1, 2, 3, 4})"
  by (auto simp: remap_getitem_def RemapLabelsDataset_def even_label_map_def odd_label_map_def)

theorem remap_getitem_fixed_maps_witness:
  "remap_getitem (RemapLabelsDataset (Subset [(10::nat, 6), (11, 3)] [0, 1]) even_label_map) 0 = Inr (10, 3)
   \<and> remap_getitem (RemapLabelsDataset (Subset [(10::nat, 6), (11, 3)] [0, 1]) odd_label_map) (- 1) = Inr (11, 1)"
proof -
  have e: "subset_getitem (Subset [(10::nat, 6), (11, 3)] [0, 1]) 0 = Inr (10, 6)"
    by (simp add: subset_getitem_def Subset_def py_getitem_def)
  have o: "subset_getitem (Subset [(10::nat, 6), (11, 3)] [0, 1]) (- 1) = Inr (11, 3)"
    by (simp add: subset_getitem_def Subset_def py_getitem_def)
  from remap_getitem_fixed_maps [of "Subset [(10::nat, 6), (11, 3)] [0, 1]" 0 10 6] e
  have "remap_getitem (RemapLabelsDataset (Subset [(10::nat, 6), (11, 3)] [0, 1]) even_label_map) 0 = Inr (10, 3)"
    by simp
  moreover from remap_getitem_fixed_maps [of "Subset [(10::nat, 6), (11, 3)] [0, 1]" "- 1" 11 3] o
  have "remap_getitem (RemapLabelsDataset (Subset [(10::nat, 6), (11, 3)] [0, 1]) odd_label_map) (- 1) = Inr (11, 1)"
    by simp
  ultimately show ?thesis by simp
qed

text \<open>
  C3. When the base collection holds at least 20 (for the test set: 200) examples of each
  of the labels 1, 3, 5, 7, 9, the selected positions hold at most that many positions of
  any label, the labels of the selected items are exactly 1, 3, 5, 7, 9, and for each of
  these labels the selected positions are the first 20 (200) positions carrying it, in the
  order of the dataset; the selection is the concatenation of these runs, label by label.
\<close>

theorem capped_indices_first_per_label:
  "((\<forall>l \<in> {1, 3, 5, 7, 9}. 20 \<le> length (filter (\<lambda>(img, lbl). lbl = l) full_train_dataset)) \<longrightarrow>
      (\<forall>l. length (filter (\<lambda>i. snd (full_train_dataset ! i) = l) (small_train_indices full_train_dataset)) \<le> 20)
      \<and> (\<lambda>i. snd (full_train_dataset ! i)) ` set (small_train_indices full_train_dataset) = {1, 3, 5, 7, 9}
      \<and> (\<forall>l \<in> {1, 3, 5, 7, 9}.
            filter (\<lambda>i. snd (full_train_dataset ! i) = l) (small_train_indices full_train_dataset) =
              take 20 (filter (\<lambda>i. snd (full_train_dataset ! i) = l) [0..<length full_train_dataset]))
      \<and> set (small_train_indices full_train_dataset) \<subseteq> {..<length full_train_dataset}
      \<and> small_train_indices full_train_dataset =
            concat (map (\<lambda>l. take 20 (filter (\<lambda>i. snd (full_train_dataset ! i) = l)
                                              [0..<length full_train_dataset]))
                        [1, 3, 5, 7, 9]))
   \<and> ((\<forall>l \<in> {1, 3, 5, 7, 9}. 200 \<le> length (filter (\<lambda>(img, lbl). lbl = l) test_dataset)) \<longrightarrow>
      (\<forall>l. length (filter (\<lambda>i. snd (test_dataset ! i) = l) (test_indices test_dataset)) \<le> 200)
      \<and> (\<lambda>i. snd (test_dataset ! i)) ` set (test_indices test_dataset) = {1, 3, 5, 7, 9}
      \<and> (\<forall>l \<in> {1, 3, 5, 7, 9}.
            filter (\<lambda>i. snd (test_dataset ! i) = l) (test_indices test_dataset) =
              take 200 (filter (\<lambda>i. snd (test_dataset ! i) = l) [0..<length test_dataset]))
      \<and> set (test_indices test_dataset) \<subseteq> {..<length test_dataset}
      \<and> test_indices test_dataset =
            concat (map (\<lambda>l. take 200 (filter (\<lambda>i. snd (test_dataset ! i) = l)
                                               [0..<length test_dataset]))
                        [1, 3, 5, 7, 9]))"
proof (rule conjI; rule impI)
  assume h: "\<forall>l \<in> {1, 3, 5, 7, 9}. 20 \<le> length (filter (\<lambda>(img, lbl). lbl = l) full_train_dataset)"
  show "(\<forall>l. length (filter (\<lambda>i. snd (full_train_dataset ! i) = l) (small_train_indices full_train_dataset)) \<le> 20)
      \<and> (\<lambda>i. snd (full_train_dataset ! i)) ` set (small_train_indices full_train_dataset) = {1, 3, 5, 7, 9}
      \<and> (\<forall>l \<in> {1, 3, 5, 7, 9}.
            filter (\<lambda>i. snd (full_train_dataset ! i) = l) (small_train_indices full_train_dataset) =
              take 20 (filter (\<lambda>i. snd (full_train_dataset ! i) = l) [0..<length full_train_dataset]))
      \<and> set (small_train_indices full_train_dataset) \<subseteq> {..<length full_train_dataset}
      \<and> small_train_indices full_train_dataset =
            concat (map (\<lambda>l. take 20 (filter (\<lambda>i. snd (full_train_dataset ! i) = l)
                                              [0..<length full_train_dataset]))
                        [1, 3, 5, 7, 9])"
    by (intro conjI small_train_indices_spec [OF h])
next
  assume h: "\<forall>l \<in> {1, 3, 5, 7, 9}. 200 \<le> length (filter (\<lambda>(img, lbl). lbl = l) test_dataset)"
  show "(\<forall>l. length (filter (\<lambda>i. snd (test_dataset ! i) = l) (test_indices test_dataset)) \<le> 200)
      \<and> (\<lambda>i. snd (test_dataset ! i)) ` set (test_indices test_dataset) = {1, 3, 5, 7, 9}
      \<and> (\<forall>l \<in> {1, 3, 5, 7, 9}.
            filter (\<lambda>i. snd (test_dataset ! i) = l) (test_indices test_dataset) =
              take 200 (filter (\<lambda>i. snd (test_dataset ! i) = l) [0..<length test_dataset]))
      \<and> set (test_indices test_dataset) \<subseteq> {..<length test_dataset}
      \<and> test_indices test_dataset =
            concat (map (\<lambda>l. take 200 (filter (\<lambda>i. snd (test_dataset ! i) = l)
                                               [0..<length test_dataset]))
                        [1, 3, 5, 7, 9])"
    by (intro conjI test_indices_spec [OF h])
qed

theorem capped_indices_first_per_label_witness:
  "(\<lambda>i. snd (concat (replicate 20 [((), 1), ((), 3), ((), 4), ((), 5), ((), 7), ((), 9 :: int)]) ! i)) `
      set (small_train_indices (concat (replicate 20 [((), 1), ((), 3), ((), 4), ((), 5), ((), 7), ((), 9)])))
     = {1, 3, 5, 7, 9}
   \<and> (\<lambda>i. snd (concat (replicate 200 [((), 1), ((), 3), ((), 4), ((), 5), ((), 7), ((), 9 :: int)]) ! i)) `
      set (test_indices (concat (replicate 200 [((), 1), ((), 3), ((), 4), ((), 5), ((), 7), ((), 9)])))
     = {1, 3, 5, 7, 9}"
proof -
  have a: "\<forall>l \<in> {1, 3, 5, 7, 9}. 20 \<le> length (filter (\<lambda>(img, lbl). lbl = l)
             (concat (replicate 20 [((), 1), ((), 3), ((), 4), ((), 5), ((), 7), ((), 9 :: int)])))"
    by (simp add: length_filter_concat_replicate)
  have b: "\<forall>l \<in> {1, 3, 5, 7, 9}. 200 \<le> length (filter (\<lambda>(img, lbl). lbl = l)
             (concat (replicate 200 [((), 1), ((), 3), ((), 4), ((), 5), ((), 7), ((), 9 :: int)])))"
    by (simp add: length_filter_concat_replicate)
  note inst = capped_indices_first_per_label
         [of "concat (replicate 20 [((), 1), ((), 3), ((), 4), ((), 5), ((), 7), ((), 9)])"
             "concat (replicate 200 [((), 1), ((), 3), ((), 4), ((), 5), ((), 7), ((), 9)])"]
  note l = inst [THEN conjunct1, THEN mp, OF a, THEN conjunct2, THEN conjunct1]
  note r = inst [THEN conjunct2, THEN mp, OF b, THEN conjunct2, THEN conjunct1]
  show ?thesis by (rule conjI [OF l r])
qed

section \<open>The store: what each primitive changes\<close>

lemma fold_grad_None:
  "fold (\<lambda>p t. t(p := (t p)\<lparr>grad := None\<rparr>)) ps t q =
     (if q \<in> set ps then (t q)\<lparr>grad := None\<rparr> else t q)"
  by (induction ps arbitrary: t) auto

lemma fold_freeze:
  "fold (\<lambda>p t. t(p := (t p)\<lparr>requires_grad := False\<rparr>)) ps t q =
     (if q \<in> set ps then (t q)\<lparr>requires_grad := False\<rparr> else t q)"
  by (induction ps arbitrary: t) auto

lemma tensors_zero_grad:
  "tensors (zero_grad optimizer w) q =
     (if q \<in> set (params (optimizers w optimizer)) then (tensors w q)\<lparr>grad := None\<rparr>
      else tensors w q)"
  by (simp add: zero_grad_def fold_grad_None)

lemma tensors_freeze:
  "tensors (freeze ps w) q =
     (if q \<in> set ps then (tensors w q)\<lparr>requires_grad := False\<rparr> else tensors w q)"
  by (simp add: freeze_def fold_freeze)

lemma fold_backward_fields:
  "data (fold (\<lambda>(p, g) t.
            if requires_grad (t p)
            then t(p := (t p)\<lparr>grad := Some (case grad (t p) of None \<Rightarrow> g | Some g0 \<Rightarrow> add g0 g)\<rparr>)
            else t) pgs t q) = data (t q)
   \<and> requires_grad (fold (\<lambda>(p, g) t.
            if requires_grad (t p)
            then t(p := (t p)\<lparr>grad := Some (case grad (t p) of None \<Rightarrow> g | Some g0 \<Rightarrow> add g0 g)\<rparr>)
            else t) pgs t q) = requires_grad (t q)
   \<and> (\<not> requires_grad (t q) \<longrightarrow>
        fold (\<lambda>(p, g) t.
            if requires_grad (t p)
            then t(p := (t p)\<lparr>grad := Some (case grad (t p) of None \<Rightarrow> g | Some g0 \<Rightarrow> add g0 g)\<rparr>)
            else t) pgs t q = t q)"
  by (induction pgs arbitrary: t) (auto split: prod.splits)

lemma backward_result:
  "fst (backward T model imgs labels w) =
     (if filter (\<lambda>p. requires_grad (tensors w p)) (model_parameters (modules w model)) = []
      then Inl RuntimeError else Inr ())"
  by (simp add: backward_def Let_def)

lemma backward_fields:
  assumes "backward T model imgs labels w = (r, w')"
  shows "rng w' = rng w" and "next_id w' = next_id w" and "modules w' = modules w"
    and "optimizers w' = optimizers w" and "handlers w' = handlers w"
    and "log_files w' = log_files w" and "stdout w' = stdout w"
    and "saved_images w' = saved_images w" and "npy_files w' = npy_files w"
  using assms by (auto simp: backward_def Let_def split: if_splits)

lemma backward_tensors:
  assumes "backward T model imgs labels w = (r, w')"
  shows "data (tensors w' q) = data (tensors w q)"
    and "requires_grad (tensors w' q) = requires_grad (tensors w q)"
    and "\<not> requires_grad (tensors w q) \<Longrightarrow> tensors w' q = tensors w q"
  using assms fold_backward_fields [of "add_grad T" _ "tensors w" q]
  by (auto simp: backward_def Let_def split: if_splits)

lemma fold_adam_fields:
  "requires_grad (fst (fold (\<lambda>p (t, s).
            case grad (t p) of
              None \<Rightarrow> (t, s)
            | Some g \<Rightarrow> (let (s', v') = upd (s p) (data (t p)) g
                         in (t(p := (t p)\<lparr>data := v'\<rparr>), s(p \<mapsto> s')))) ps (t, s)) q)
     = requires_grad (t q)
   \<and> grad (fst (fold (\<lambda>p (t, s).
            case grad (t p) of
              None \<Rightarrow> (t, s)
            | Some g \<Rightarrow> (let (s', v') = upd (s p) (data (t p)) g
                         in (t(p := (t p)\<lparr>data := v'\<rparr>), s(p \<mapsto> s')))) ps (t, s)) q)
     = grad (t q)
   \<and> (q \<notin> set ps \<longrightarrow>
        fst (fold (\<lambda>p (t, s).
            case grad (t p) of
              None \<Rightarrow> (t, s)
            | Some g \<Rightarrow> (let (s', v') = upd (s p) (data (t p)) g
                         in (t(p := (t p)\<lparr>data := v'\<rparr>), s(p \<mapsto> s')))) ps (t, s)) q = t q)"
  by (induction ps arbitrary: t s) (auto split: option.splits prod.splits)

lemma adam_step_fields:
  shows "rng (adam_step T optimizer w) = rng w"
    and "next_id (adam_step T optimizer w) = next_id w"
    and "modules (adam_step T optimizer w) = modules w"
    and "handlers (adam_step T optimizer w) = handlers w"
    and "log_files (adam_step T optimizer w) = log_files w"
    and "stdout (adam_step T optimizer w) = stdout w"
    and "saved_images (adam_step T optimizer w) = saved_images w"
    and "npy_files (adam_step T optimizer w) = npy_files w"
    and "params (optimizers (adam_step T optimizer w) x) = params (optimizers w x)"
  by (simp_all add: adam_step_def Let_def split: prod.splits)

lemma adam_step_tensors:
  shows "requires_grad (tensors (adam_step T optimizer w) q) = requires_grad (tensors w q)"
    and "grad (tensors (adam_step T optimizer w) q) = grad (tensors w q)"
    and "q \<notin> set (params (optimizers w optimizer)) \<Longrightarrow> tensors (adam_step T optimizer w) q = tensors w q"
  using fold_adam_fields [of "adam_update T" "params (optimizers w optimizer)" "tensors w"
          "state (optimizers w optimizer)" q]
  by (auto simp: adam_step_def Let_def split: prod.splits)

section \<open>Batches\<close>

declare chunks.simps [simp del]

lemma chunks_Nil [simp]: "chunks n [] = []"
  by (simp add: chunks.simps)

lemma chunks_step: "0 < n \<Longrightarrow> xs \<noteq> [] \<Longrightarrow> chunks n xs = take n xs # chunks n (drop n xs)"
  by (subst chunks.simps) simp

lemma concat_chunks: "0 < n \<Longrightarrow> concat (chunks n xs) = xs"
proof (induction n xs rule: chunks.induct)
  case (1 n xs)
  show ?case
  proof (cases "xs = []")
    case True
    then show ?thesis by simp
  next
    case False
    with 1 show ?thesis by (simp add: chunks_step)
  qed
qed

lemma chunks_nonempty: "c \<in> set (chunks n xs) \<Longrightarrow> c \<noteq> []"
proof (induction n xs rule: chunks.induct)
  case (1 n xs)
  show ?case
  proof (cases "n = 0 \<or> xs = []")
    case True
    with 1(2) show ?thesis by (auto simp: chunks.simps)
  next
    case False
    with 1 show ?thesis by (auto simp: chunks_step)
  qed
qed

lemma chunks_subset: "c \<in> set (chunks n xs) \<Longrightarrow> set c \<subseteq> set xs"
proof (induction n xs rule: chunks.induct)
  case (1 n xs)
  show ?case
  proof (cases "n = 0 \<or> xs = []")
    case True
    with 1(2) show ?thesis by (auto simp: chunks.simps)
  next
    case False
    with 1 show ?thesis
      by (auto simp: chunks_step dest: in_set_takeD in_set_dropD)
  qed
qed

lemma chunks_eq_Nil: "0 < n \<Longrightarrow> chunks n xs = [] \<longleftrightarrow> xs = []"
  by (cases "xs = []") (simp_all add: chunks_step)

lemma ceil_div_step:
  fixes n len :: nat
  assumes "0 < n" and "0 < len"
  shows "Suc ((len - n + n - 1) div n) = (len + n - 1) div n"
proof -
  have g: "(len + n - 1) div n = Suc ((len - 1) div n)"
  proof -
    from assms obtain m where "len = Suc m" by (cases len) auto
    then show ?thesis using assms by (simp add: div_add_self2)
  qed
  show ?thesis
  proof (cases "n \<le> len")
    case True
    then have "len - n + n - 1 = len - 1" by simp
    with g show ?thesis by simp
  next
    case False
    then have "len - n + n - 1 = n - 1" and "len - 1 < n" by simp_all
    with g assms show ?thesis by simp
  qed
qed

lemma length_chunks: "0 < n \<Longrightarrow> length (chunks n xs) = (length xs + n - 1) div n"
proof (induction n xs rule: chunks.induct)
  case (1 n xs)
  show ?case
  proof (cases "xs = []")
    case True
    with 1(2) show ?thesis by simp
  next
    case False
    then have "length (chunks n xs) = Suc ((length xs - n + n - 1) div n)"
      using 1 by (simp add: chunks_step)
    also have "\<dots> = (length xs + n - 1) div n"
      using False 1(2) by (intro ceil_div_step) simp_all
    finally show ?thesis .
  qed
qed

section \<open>Fetching\<close>

lemma fetchable_iff:
  "fetchable ds \<longleftrightarrow> (\<forall>i < remap_len ds. \<exists>img l. remap_getitem ds (int i) = Inr (img, l))"
proof -
  have "\<And>x :: py_error + ('a \<times> int). (isl x = False) = (\<exists>img l. x = Inr (img, l))"
    by (case_tac x) auto
  then show ?thesis by (auto simp: fetchable_def list_all_iff)
qed

lemma fetch_ok:
  assumes "fetchable ds" and "set ixs \<subseteq> {..<remap_len ds}"
  shows "\<exists>imgs labels. fetch ds ixs = Inr (imgs, labels) \<and> length labels = length ixs
           \<and> length imgs = length ixs"
  using assms(2)
proof (induction ixs)
  case Nil
  show ?case by simp
next
  case (Cons i ixs)
  then obtain imgs labels where r: "fetch ds ixs = Inr (imgs, labels)"
      "length labels = length ixs" "length imgs = length ixs"
    by auto
  from Cons.prems assms(1) obtain img l where "remap_getitem ds (int i) = Inr (img, l)"
    by (auto simp: fetchable_iff)
  with r show ?case by simp
qed

lemma fetch_label_range:
  assumes "fetch ds ixs = Inr (imgs, labels)"
  shows "length labels = length ixs \<and> length imgs = length ixs"
  using assms
proof (induction ixs arbitrary: imgs labels)
  case Nil
  then show ?case by simp
next
  case (Cons i ixs)
  then show ?case
    by (auto split: sum.splits prod.splits)
qed

text \<open>The exception of a failed fetch is the one the first unreadable item raised.\<close>

lemma fetch_error:
  "fetch ds ixs = Inl e \<longleftrightarrow>
     (\<exists>pre i post. ixs = pre @ i # post \<and> remap_getitem ds (int i) = Inl e
        \<and> (\<forall>j \<in> set pre. isl (remap_getitem ds (int j)) = False))"
proof (induction ixs)
  case Nil
  show ?case by simp
next
  case (Cons k ixs)
  show ?case
  proof (cases "remap_getitem ds (int k)")
    case (Inl e')
    show ?thesis
    proof
      assume "fetch ds (k # ixs) = Inl e"
      with Inl have "e' = e" by simp
      with Inl have "k # ixs = [] @ k # ixs \<and> remap_getitem ds (int k) = Inl e
          \<and> (\<forall>j \<in> set []. isl (remap_getitem ds (int j)) = False)" by simp
      then show "\<exists>pre i post. k # ixs = pre @ i # post \<and> remap_getitem ds (int i) = Inl e
          \<and> (\<forall>j \<in> set pre. isl (remap_getitem ds (int j)) = False)" by blast
    next
      assume "\<exists>pre i post. k # ixs = pre @ i # post \<and> remap_getitem ds (int i) = Inl e
          \<and> (\<forall>j \<in> set pre. isl (remap_getitem ds (int j)) = False)"
      then obtain pre i post where p: "k # ixs = pre @ i # post" "remap_getitem ds (int i) = Inl e"
          "\<forall>j \<in> set pre. isl (remap_getitem ds (int j)) = False" by blast
      have "pre = []"
      proof (cases pre)
        case Nil then show ?thesis .
      next
        case (Cons a as)
        with p(1) have "a = k" by simp
        with p(3) Cons Inl show ?thesis by simp
      qed
      with p Inl show "fetch ds (k # ixs) = Inl e" by simp
    qed
  next
    case (Inr x)
    obtain img l where x: "x = (img, l)" by (cases x)
    have step: "fetch ds (k # ixs) = Inl e \<longleftrightarrow> fetch ds ixs = Inl e"
      using Inr x by (auto split: sum.splits prod.splits)
    show ?thesis
    proof
      assume "fetch ds (k # ixs) = Inl e"
      with step Cons obtain pre i post where p: "ixs = pre @ i # post" "remap_getitem ds (int i) = Inl e"
          "\<forall>j \<in> set pre. isl (remap_getitem ds (int j)) = False" by blast
      then have "k # ixs = (k # pre) @ i # post \<and> remap_getitem ds (int i) = Inl e
          \<and> (\<forall>j \<in> set (k # pre). isl (remap_getitem ds (int j)) = False)"
        using Inr by simp
      then show "\<exists>pre i post. k # ixs = pre @ i # post \<and> remap_getitem ds (int i) = Inl e
          \<and> (\<forall>j \<in> set pre. isl (remap_getitem ds (int j)) = False)" by blast
    next
      assume "\<exists>pre i post. k # ixs = pre @ i # post \<and> remap_getitem ds (int i) = Inl e
          \<and> (\<forall>j \<in> set pre. isl (remap_getitem ds (int j)) = False)"
      then obtain pre i post where p: "k # ixs = pre @ i # post" "remap_getitem ds (int i) = Inl e"
          "\<forall>j \<in> set pre. isl (remap_getitem ds (int j)) = False" by blast
      from p(1,2) Inr obtain pre' where "pre = k # pre'" by (cases pre) auto
      with p have "ixs = pre' @ i # post \<and> remap_getitem ds (int i) = Inl e
          \<and> (\<forall>j \<in> set pre'. isl (remap_getitem ds (int j)) = False)" by simp
      then have "fetch ds ixs = Inl e" using Cons by blast
      with step show "fetch ds (k # ixs) = Inl e" by simp
    qed
  qed
qed

section \<open>Iterating over a loader\<close>

lemma loader_iter_world:
  "snd (loader_iter T dl w) = (if shuffle dl then w\<lparr>rng := Suc (rng w)\<rparr> else w)"
  by (simp add: loader_iter_def Let_def)

lemma randperm_length: "randperm_ok T \<Longrightarrow> length (randperm T g n) = n"
  unfolding randperm_ok_def by (metis card_lessThan distinct_card)

lemma randperm_set: "randperm_ok T \<Longrightarrow> set (randperm T g n) = {..<n}"
  unfolding randperm_ok_def by blast

text \<open>Over a loader whose items can all be read, every batch of an iteration is fetched,
  none is empty, and there are \<open>len(loader)\<close> of them, at least one.\<close>

lemma loader_iter_ok:
  assumes "loader_ok dl" and "shuffle dl \<longrightarrow> randperm_ok T"
  shows "\<forall>b \<in> set (fst (loader_iter T dl w)). \<exists>imgs labels. b = Inr (imgs, labels) \<and> labels \<noteq> []"
    and "length (fst (loader_iter T dl w)) = loader_len dl"
    and "0 < loader_len dl"
proof -
  define n where "n = remap_len (dl_dataset dl)"
  define order where "order = (if shuffle dl then randperm T (rng w) n else [0..<n])"
  have bs: "0 < batch_size dl" and n: "0 < n" and f: "fetchable (dl_dataset dl)"
    using assms(1) by (simp_all add: loader_ok_def n_def)
  have it: "fst (loader_iter T dl w) = map (fetch (dl_dataset dl)) (chunks (batch_size dl) order)"
    by (simp add: loader_iter_def Let_def order_def n_def)
  have set_order: "set order = {..<n}"
    using assms(2) by (auto simp: order_def randperm_set)
  have len_order: "length order = n"
    using assms(2) by (simp add: order_def randperm_length)
  show "\<forall>b \<in> set (fst (loader_iter T dl w)). \<exists>imgs labels. b = Inr (imgs, labels) \<and> labels \<noteq> []"
  proof
    fix b assume "b \<in> set (fst (loader_iter T dl w))"
    then obtain c where c: "c \<in> set (chunks (batch_size dl) order)" "b = fetch (dl_dataset dl) c"
      by (auto simp: it)
    then have "set c \<subseteq> {..<remap_len (dl_dataset dl)}" and "c \<noteq> []"
      using chunks_subset [OF c(1)] chunks_nonempty [OF c(1)] set_order by (simp_all add: n_def)
    with fetch_ok [OF f, of c] c(2)
    show "\<exists>imgs labels. b = Inr (imgs, labels) \<and> labels \<noteq> []" by auto
  qed
  show "length (fst (loader_iter T dl w)) = loader_len dl"
    by (simp add: it length_chunks [OF bs] len_order loader_len_def n_def)
  have "chunks (batch_size dl) order \<noteq> []"
    using chunks_eq_Nil [OF bs, of order] len_order n by auto
  then have "0 < length (chunks (batch_size dl) order)" by simp
  then show "0 < loader_len dl"
    by (simp add: length_chunks [OF bs] len_order loader_len_def n_def)
qed

section \<open>The inner loop of the trainer\<close>

lemma train_batches_step:
  "train_batches T model criterion optimizer (Inr (imgs, labels) # rest) (l, c, t) w =
     (case criterion (model_call T model imgs w) labels of
        Inl e \<Rightarrow> (Inl e, w)
      | Inr loss \<Rightarrow>
          (case backward T model imgs labels (zero_grad optimizer w) of
             (Inl e, w2) \<Rightarrow> (Inl e, w2)
           | (Inr u, w2) \<Rightarrow>
               train_batches T model criterion optimizer rest
                 (l + loss,
                  c + count_correct (argmax T (model_call T model imgs w)) labels,
                  t + length labels)
                 (adam_step T optimizer w2)))"
  by (simp add: Let_def split: prod.splits sum.splits)

declare train_batches.simps(3) [simp del]

lemma steps_closedD:
  assumes "steps_closed T Ms Os R"
  shows "R w w" and "R a b \<Longrightarrow> R b c \<Longrightarrow> R a c"
    and "optimizer \<in> Os \<Longrightarrow> R w (zero_grad optimizer w)"
    and "optimizer \<in> Os \<Longrightarrow> R w (adam_step T optimizer w)"
    and "model \<in> Ms \<Longrightarrow> backward T model imgs labels w = (r, w') \<Longrightarrow> R w w'"
    and "model \<in> Ms \<Longrightarrow> R w (model_train model w)"
    and "model \<in> Ms \<Longrightarrow> R w (model_eval model w)"
    and "R w (w\<lparr>rng := Suc (rng w)\<rparr>)"
    and "R w (logger_info logger msg w)"
    and "R w (print msg w)"
proof -
  show "R w w" using assms by (simp add: steps_closed_def)
  from assms have t: "\<forall>a b c. R a b \<longrightarrow> R b c \<longrightarrow> R a c"
    by (simp add: steps_closed_def)
  show "R a b \<Longrightarrow> R b c \<Longrightarrow> R a c" using t by blast
  show "optimizer \<in> Os \<Longrightarrow> R w (zero_grad optimizer w)" using assms by (simp add: steps_closed_def)
  show "optimizer \<in> Os \<Longrightarrow> R w (adam_step T optimizer w)" using assms by (simp add: steps_closed_def)
  show "model \<in> Ms \<Longrightarrow> backward T model imgs labels w = (r, w') \<Longrightarrow> R w w'"
  proof -
    assume m: "model \<in> Ms" and b: "backward T model imgs labels w = (r, w')"
    from assms m have "R w (snd (backward T model imgs labels w))"
      unfolding steps_closed_def by blast
    with b show "R w w'" by simp
  qed
  show "model \<in> Ms \<Longrightarrow> R w (model_train model w)" using assms by (simp add: steps_closed_def)
  show "model \<in> Ms \<Longrightarrow> R w (model_eval model w)" using assms by (simp add: steps_closed_def)
  show "R w (w\<lparr>rng := Suc (rng w)\<rparr>)" using assms by (simp add: steps_closed_def)
  show "R w (logger_info logger msg w)" using assms by (simp add: steps_closed_def)
  show "R w (print msg w)" using assms by (simp add: steps_closed_def)
qed

text \<open>Induction along the inner loop: the empty stream, a failed fetch, a batch the
  criterion refuses, a failed \<open>backward\<close>, and a completed step.\<close>

lemma train_batches_cases [case_names Nil Error Refuse Fail Step]:
  assumes "\<And>acc w. P [] acc w"
    and "\<And>e rest acc w. P (Inl e # rest) acc w"
    and "\<And>imgs labels rest l c t w e.
           criterion (model_call T model imgs w) labels = Inl e \<Longrightarrow>
           P (Inr (imgs, labels) # rest) (l, c, t) w"
    and "\<And>imgs labels rest l c t w loss e w2.
           criterion (model_call T model imgs w) labels = Inr loss \<Longrightarrow>
           backward T model imgs labels (zero_grad optimizer w) = (Inl e, w2) \<Longrightarrow>
           P (Inr (imgs, labels) # rest) (l, c, t) w"
    and "\<And>imgs labels rest l c t w loss u w2.
           criterion (model_call T model imgs w) labels = Inr loss \<Longrightarrow>
           backward T model imgs labels (zero_grad optimizer w) = (Inr u, w2) \<Longrightarrow>
           P rest (l + loss,
                   c + count_correct (argmax T (model_call T model imgs w)) labels,
                   t + length labels) (adam_step T optimizer w2) \<Longrightarrow>
           P (Inr (imgs, labels) # rest) (l, c, t) w"
  shows "P bs acc w"
proof -
  have "\<forall>a s. P bs a s"
  proof (induct bs)
    case Nil
    show ?case using assms(1) by blast
  next
    case (Cons b bs)
    show ?case
    proof (intro allI)
      fix a s
      show "P (b # bs) a s"
      proof (cases b)
        case (Inl e)
        then show ?thesis using assms(2) by simp
      next
        case bx: (Inr x)
        obtain imgs labels where x: "x = (imgs, labels)" by (cases x)
        obtain l c t where a: "a = (l, c, t)" by (cases a)
        obtain rb w2 where bw: "backward T model imgs labels (zero_grad optimizer s) = (rb, w2)"
          by (cases "backward T model imgs labels (zero_grad optimizer s)")
        have "P (Inr (imgs, labels) # bs) (l, c, t) s"
        proof (cases "criterion (model_call T model imgs s) labels")
          case (Inl e)
          then show ?thesis by (rule assms(3))
        next
          case cr: (Inr loss)
          show ?thesis
          proof (cases rb)
            case (Inl e)
            with bw have "backward T model imgs labels (zero_grad optimizer s) = (Inl e, w2)" by simp
            with cr show ?thesis by (rule assms(4))
          next
            case (Inr u)
            with bw have "backward T model imgs labels (zero_grad optimizer s) = (Inr u, w2)" by simp
            with cr show ?thesis using Cons by (intro assms(5)) simp_all
          qed
        qed
        then show ?thesis by (simp add: bx x a)
      qed
    qed
  qed
  then show ?thesis by blast
qed

lemma train_batches_rel:
  assumes "steps_closed T Ms Os R" and "model \<in> Ms" and "optimizer \<in> Os"
  shows "train_batches T model criterion optimizer bs acc w = (r, w') \<Longrightarrow> R w w'"
proof (induction bs acc w rule: train_batches_cases [where criterion=criterion and T=T and model=model and optimizer=optimizer])
  case (Nil acc w)
  then show ?case using steps_closedD(1) [OF assms(1)] by simp
next
  case (Error e rest acc w)
  then show ?case using steps_closedD(1) [OF assms(1)] by simp
next
  case (Refuse imgs labels rest l c t w e)
  then show ?case using steps_closedD(1) [OF assms(1)] by (simp add: train_batches_step)
next
  case (Fail imgs labels rest l c t w loss e w2)
  have r1: "R w (zero_grad optimizer w)"
    by (rule steps_closedD(3) [OF assms(1) assms(3)])
  have r2: "R (zero_grad optimizer w) w2"
    by (rule steps_closedD(5) [OF assms(1) assms(2) Fail.hyps(2)])
  from Fail have "w' = w2" by (simp add: train_batches_step)
  with r1 r2 show ?case using steps_closedD(2) [OF assms(1)] by blast
next
  case (Step imgs labels rest l c t w loss u w2)
  have r1: "R w (zero_grad optimizer w)"
    by (rule steps_closedD(3) [OF assms(1) assms(3)])
  have r2: "R (zero_grad optimizer w) w2"
    by (rule steps_closedD(5) [OF assms(1) assms(2) Step.hyps(2)])
  have r3: "R w2 (adam_step T optimizer w2)"
    by (rule steps_closedD(4) [OF assms(1) assms(3)])
  from Step.prems Step.hyps
  have "train_batches T model criterion optimizer rest
          (l + loss, c + count_correct (argmax T (model_call T model imgs w)) labels, t + length labels)
          (adam_step T optimizer w2) = (r, w')"
    by (simp add: train_batches_step)
  then have "R (adam_step T optimizer w2) w'" by (rule Step.IH)
  with r1 r2 r3 show ?case using steps_closedD(2) [OF assms(1)] by blast
qed

text \<open>No step of the trainer changes a model's layers or a parameter's
  \<open>requires_grad\<close> flag, so a trainable model stays trainable.\<close>

lemma model_parameters_training [simp]:
  "model_parameters (net\<lparr>training := b\<rparr>) = model_parameters net"
  by (simp add: model_parameters_def)

lemma zero_grad_fields:
  shows "rng (zero_grad optimizer w) = rng w"
    and "next_id (zero_grad optimizer w) = next_id w"
    and "modules (zero_grad optimizer w) = modules w"
    and "optimizers (zero_grad optimizer w) = optimizers w"
    and "handlers (zero_grad optimizer w) = handlers w"
    and "log_files (zero_grad optimizer w) = log_files w"
    and "stdout (zero_grad optimizer w) = stdout w"
    and "saved_images (zero_grad optimizer w) = saved_images w"
    and "npy_files (zero_grad optimizer w) = npy_files w"
  by (simp_all add: zero_grad_def)

lemma steps_closed_shape: "steps_closed T Ms Os same_shape"
  unfolding steps_closed_def same_shape_def
proof (intro conjI allI ballI impI)
qed (simp_all add: tensors_zero_grad adam_step_fields adam_step_tensors zero_grad_fields
      model_train_def model_eval_def logger_info_def print_def
      backward_fields [OF surjective_pairing] backward_tensors [OF surjective_pairing])

lemma same_shape_parameters:
  "same_shape w w' \<Longrightarrow> model_parameters (modules w' m) = model_parameters (modules w m)"
  by (simp add: same_shape_def model_parameters_def)

lemma same_shape_trainable: "same_shape w w' \<Longrightarrow> trainable m w' = trainable m w"
  using same_shape_parameters [of w w' m] by (simp add: trainable_def same_shape_def)

lemma train_batches_shape:
  "train_batches T model criterion optimizer bs acc w = (r, w') \<Longrightarrow> same_shape w w'"
  by (rule train_batches_rel [OF steps_closed_shape [of T UNIV UNIV]]) simp_all

lemma trainable_zero_grad [simp]: "trainable m (zero_grad optimizer w) = trainable m w"
  by (rule same_shape_trainable) (simp add: steps_closedD(3) [OF steps_closed_shape [of T UNIV UNIV]])

lemma backward_Inl_iff:
  "backward T m imgs labels w = (Inl e, w2) \<longleftrightarrow> \<not> trainable m w \<and> e = RuntimeError \<and> w2 = w"
  by (auto simp: backward_def trainable_def Let_def)

lemma backward_trainable:
  "backward T m imgs labels w = (r, w2) \<Longrightarrow> trainable m w2 = trainable m w"
  by (rule same_shape_trainable)
     (rule steps_closedD(5) [OF steps_closed_shape [of T UNIV UNIV]], simp_all)

lemma adam_step_trainable [simp]: "trainable m (adam_step T optimizer w) = trainable m w"
  by (rule same_shape_trainable) (simp add: steps_closedD(4) [OF steps_closed_shape [of T UNIV UNIV]])

lemma count_correct_le: "count_correct predicted labels \<le> length labels"
proof -
  have "length (filter (\<lambda>(p, l). p = l) (zip predicted labels)) \<le> length (zip predicted labels)"
    by (rule length_filter_le)
  then show ?thesis by (simp add: count_correct_def)
qed

text \<open>What the inner loop returns when it completes: the loss added is the sum of the
  batches' losses, one per batch; the examples counted are those of all batches; the
  correct ones are among them.\<close>

lemma train_batches_Inr_gen:
  "train_batches T model criterion optimizer bs acc w = (Inr acc', w') \<Longrightarrow>
     fst acc' = fst acc + sum_list (batch_losses T model criterion optimizer bs w)
     \<and> length (batch_losses T model criterion optimizer bs w) = length bs
     \<and> fst (snd acc) \<le> fst (snd acc')
     \<and> fst (snd acc') + snd (snd acc) \<le> snd (snd acc') + fst (snd acc)
     \<and> snd (snd acc') = snd (snd acc)
          + sum_list (map (\<lambda>b. case b of Inl e \<Rightarrow> 0 | Inr (imgs, labels) \<Rightarrow> length labels) bs)
     \<and> (\<forall>b \<in> set bs. isl b = False)"
proof (induction bs acc w rule: train_batches_cases [where criterion=criterion and T=T and model=model and optimizer=optimizer])
  case (Nil acc w)
  then show ?case by simp
next
  case (Error e rest acc w)
  then show ?case by simp
next
  case (Refuse imgs labels rest l c t w e)
  then show ?case by (simp add: train_batches_step)
next
  case (Fail imgs labels rest l c t w loss e w2)
  then show ?case by (simp add: train_batches_step)
next
  case (Step imgs labels rest l c t w loss u w2)
  from Step.prems Step.hyps
  have "train_batches T model criterion optimizer rest
          (l + loss, c + count_correct (argmax T (model_call T model imgs w)) labels, t + length labels)
          (adam_step T optimizer w2) = (Inr acc', w')"
    by (simp add: train_batches_step)
  from Step.IH [OF this] Step.hyps
       count_correct_le [of "argmax T (model_call T model imgs w)" labels]
  show ?case by simp
qed

lemma train_batches_Inr:
  assumes "train_batches T model criterion optimizer bs (l0, c0, t0) w = (Inr (l, c, t), w')"
  shows "l = l0 + sum_list (batch_losses T model criterion optimizer bs w)"
    and "length (batch_losses T model criterion optimizer bs w) = length bs"
    and "c0 \<le> c" and "c + t0 \<le> t + c0"
    and "t = t0 + sum_list (map (\<lambda>b. case b of Inl e \<Rightarrow> 0 | Inr (imgs, labels) \<Rightarrow> length labels) bs)"
    and "\<forall>b \<in> set bs. isl b = False"
  using train_batches_Inr_gen [OF assms] by simp_all

lemma batch_losses_nonneg:
  assumes "\<And>out labels x. criterion out labels = Inr x \<Longrightarrow> 0 \<le> x"
  shows "\<forall>x \<in> set (batch_losses T model criterion optimizer bs w). 0 \<le> x"
proof (induction bs arbitrary: w)
  case Nil
  show ?case by simp
next
  case (Cons b bs)
  show ?case
  proof (cases b)
    case (Inl e)
    then show ?thesis by simp
  next
    case (Inr x)
    obtain imgs labels where x: "x = (imgs, labels)" by (cases x)
    show ?thesis unfolding Inr x using Cons assms
      by (auto split: prod.splits sum.splits)
  qed
qed

text \<open>The inner loop completes on a trainable model when every fetch succeeds and the
  criterion accepts every batch, and stops with the exception of the first fetch that
  fails.\<close>

lemma train_batches_ok:
  "trainable model w \<Longrightarrow>
   \<forall>b \<in> set bs. \<exists>imgs labels. b = Inr (imgs, labels)
       \<and> (\<forall>vals. isl (criterion (forward T vals imgs) labels) = False) \<Longrightarrow>
     \<exists>acc' w'. train_batches T model criterion optimizer bs acc w = (Inr acc', w')"
proof (induction bs acc w rule: train_batches_cases [where criterion=criterion and T=T and model=model and optimizer=optimizer])
  case (Nil acc w)
  show ?case by (rule exI, rule exI, rule train_batches.simps(1))
next
  case (Error e rest acc w)
  then show ?case by simp
next
  case (Refuse imgs labels rest l c t w e)
  from Refuse.prems(2)
  have "isl (criterion (forward T (map (\<lambda>p. data (tensors w p)) (model_parameters (modules w model))) imgs)
               labels) = False"
    by simp
  with Refuse.hyps show ?case by (simp add: model_call_def)
next
  case (Fail imgs labels rest l c t w loss e w2)
  then show ?case by (simp add: backward_Inl_iff)
next
  case (Step imgs labels rest l c t w loss u w2)
  have "trainable model (adam_step T optimizer w2)"
    using Step.prems(1) backward_trainable [OF Step.hyps(2)] by simp
  from Step.IH [OF this] Step.prems(2) Step.hyps
  show ?case by (simp add: train_batches_step)
qed

lemma train_batches_error:
  "train_batches T model criterion optimizer bs acc w = (Inl e, w') \<Longrightarrow>
     e = RuntimeError \<or> Inl e \<in> set bs \<or> (\<exists>out labels. criterion out labels = Inl e)"
proof (induction bs acc w rule: train_batches_cases [where criterion=criterion and T=T and model=model and optimizer=optimizer])
  case (Nil acc w)
  then show ?case by simp
next
  case (Error e' rest acc w)
  then show ?case by simp
next
  case (Refuse imgs labels rest l c t w e')
  then show ?case by (auto simp: train_batches_step)
next
  case (Fail imgs labels rest l c t w loss e' w2)
  from Fail.hyps have "e' = RuntimeError" by (simp add: backward_Inl_iff)
  with Fail show ?case by (simp add: train_batches_step)
next
  case (Step imgs labels rest l c t w loss u w2)
  then show ?case by (simp add: train_batches_step)
qed

section \<open>The outer loop of the trainer\<close>

lemma train_epochs_step:
  "train_epochs T model dl criterion optimizer n et lg (epoch # rest) (ls, as) w =
     (case train_batches T model criterion optimizer (fst (loader_iter T dl (model_train model w))) (0, 0, 0)
             (snd (loader_iter T dl (model_train model w))) of
        (Inl e, w3) \<Rightarrow> (Inl e, w3)
      | (Inr (el, c, t), w3) \<Rightarrow>
          if loader_len dl = 0 \<or> t = 0 then (Inl ZeroDivisionError, w3)
          else train_epochs T model dl criterion optimizer n et lg rest
                 (ls @ [el / real (loader_len dl)], as @ [100 * real c / real t])
                 (print (EpochMsg et (Suc epoch) n (el / real (loader_len dl)) (100 * real c / real t))
                    (case lg of
                       None \<Rightarrow> w3
                     | Some l \<Rightarrow>
                         logger_info l
                           (EpochMsg et (Suc epoch) n (el / real (loader_len dl)) (100 * real c / real t))
                           w3)))"
  by (simp add: Let_def split: prod.splits sum.splits option.splits)

declare train_epochs.simps(2) [simp del]

lemma train_epochs_cases [case_names Nil Fail Zero Step]:
  assumes "\<And>acc w. P [] acc w"
    and "\<And>epoch rest (ls :: real list) (as :: real list) w e w3.
           train_batches T model criterion optimizer (fst (loader_iter T dl (model_train model w))) (0, 0, 0)
             (snd (loader_iter T dl (model_train model w))) = (Inl e, w3) \<Longrightarrow>
           P (epoch # rest) (ls, as) w"
    and "\<And>epoch rest ls as w el c t w3.
           train_batches T model criterion optimizer (fst (loader_iter T dl (model_train model w))) (0, 0, 0)
             (snd (loader_iter T dl (model_train model w))) = (Inr (el, c, t), w3) \<Longrightarrow>
           loader_len dl = 0 \<or> t = 0 \<Longrightarrow>
           P (epoch # rest) (ls, as) w"
    and "\<And>epoch rest ls as w el c t w3.
           train_batches T model criterion optimizer (fst (loader_iter T dl (model_train model w))) (0, 0, 0)
             (snd (loader_iter T dl (model_train model w))) = (Inr (el, c, t), w3) \<Longrightarrow>
           0 < loader_len dl \<Longrightarrow> 0 < t \<Longrightarrow>
           P rest (ls @ [el / real (loader_len dl)], as @ [100 * real c / real t])
             (print (EpochMsg et (Suc epoch) n (el / real (loader_len dl)) (100 * real c / real t))
                (case lg of
                   None \<Rightarrow> w3
                 | Some l \<Rightarrow>
                     logger_info l
                       (EpochMsg et (Suc epoch) n (el / real (loader_len dl)) (100 * real c / real t))
                       w3)) \<Longrightarrow>
           P (epoch # rest) (ls, as) w"
  shows "P es acc w"
proof -
  have "\<forall>a s. P es a s"
  proof (induct es)
    case Nil
    show ?case using assms(1) by blast
  next
    case (Cons epoch es)
    show ?case
    proof (intro allI)
      fix a s
      show "P (epoch # es) a s"
      proof -
        obtain ls as where a: "a = (ls, as)" by (cases a)
        obtain rb w3 where tb:
          "train_batches T model criterion optimizer (fst (loader_iter T dl (model_train model s))) (0, 0, 0)
             (snd (loader_iter T dl (model_train model s))) = (rb, w3)"
          by (cases "train_batches T model criterion optimizer (fst (loader_iter T dl (model_train model s))) (0, 0, 0)
             (snd (loader_iter T dl (model_train model s)))")
        have "P (epoch # es) (ls, as) s"
        proof (cases rb)
          case (Inl e)
          with tb show ?thesis by (intro assms(2)) simp
        next
          case (Inr x)
          obtain el c t where x: "x = (el, c, t)" by (cases x)
          show ?thesis
          proof (cases "loader_len dl = 0 \<or> t = 0")
            case True
            with tb Inr x show ?thesis by (intro assms(3) [of s el c t w3]) simp_all
          next
            case False
            with tb Inr x Cons show ?thesis by (intro assms(4) [of s el c t w3]) simp_all
          qed
        qed
        then show ?thesis by (simp add: a)
      qed
    qed
  qed
  then show ?thesis by blast
qed

lemma loader_iter_rel:
  assumes "steps_closed T Ms Os R"
  shows "R w (snd (loader_iter T dl w))"
  using steps_closedD(1,8) [OF assms] by (simp add: loader_iter_world)

lemma train_epochs_rel:
  assumes "steps_closed T Ms Os R" and "model \<in> Ms" and "optimizer \<in> Os"
  shows "train_epochs T model dl criterion optimizer n et lg es acc w = (r, w') \<Longrightarrow> R w w'"
proof (induction es acc w rule: train_epochs_cases [where T=T and model=model and criterion=criterion and optimizer=optimizer and dl=dl and et=et and n=n and lg=lg])
  case (Nil acc w)
  then show ?case using steps_closedD(1) [OF assms(1)] by (cases acc) simp
next
  case (Fail epoch rest ls as w e w3)
  have a: "R w (model_train model w)" by (rule steps_closedD(6) [OF assms(1,2)])
  have b: "R (model_train model w) (snd (loader_iter T dl (model_train model w)))"
    by (rule loader_iter_rel [OF assms(1)])
  have c: "R (snd (loader_iter T dl (model_train model w))) w3"
    by (rule train_batches_rel [OF assms Fail.hyps])
  from Fail have "w' = w3" by (simp add: train_epochs_step)
  with a b c show ?case using steps_closedD(2) [OF assms(1)] by blast
next
  case (Zero epoch rest ls as w el c t w3)
  have a: "R w (model_train model w)" by (rule steps_closedD(6) [OF assms(1,2)])
  have b: "R (model_train model w) (snd (loader_iter T dl (model_train model w)))"
    by (rule loader_iter_rel [OF assms(1)])
  have c: "R (snd (loader_iter T dl (model_train model w))) w3"
    by (rule train_batches_rel [OF assms Zero.hyps(1)])
  from Zero have "w' = w3" by (simp add: train_epochs_step)
  with a b c show ?case using steps_closedD(2) [OF assms(1)] by blast
next
  case (Step epoch rest ls as w el c t w3)
  let ?msg = "EpochMsg et (Suc epoch) n (el / real (loader_len dl)) (100 * real c / real t)"
  let ?w4 = "case lg of None \<Rightarrow> w3 | Some l \<Rightarrow> logger_info l ?msg w3"
  have a: "R w (model_train model w)" by (rule steps_closedD(6) [OF assms(1,2)])
  have b: "R (model_train model w) (snd (loader_iter T dl (model_train model w)))"
    by (rule loader_iter_rel [OF assms(1)])
  have c: "R (snd (loader_iter T dl (model_train model w))) w3"
    by (rule train_batches_rel [OF assms Step.hyps(1)])
  have d: "R w3 ?w4"
    using steps_closedD(1,9) [OF assms(1)] by (simp split: option.splits)
  have e: "R ?w4 (print ?msg ?w4)" by (rule steps_closedD(10) [OF assms(1)])
  from Step.prems Step.hyps
  have "train_epochs T model dl criterion optimizer n et lg rest
          (ls @ [el / real (loader_len dl)], as @ [100 * real c / real t]) (print ?msg ?w4) = (r, w')"
    by (simp add: train_epochs_step)
  then have f: "R (print ?msg ?w4) w'"
    by (rule Step.IH)
  from a b c d e f show ?case using steps_closedD(2) [OF assms(1)] by blast
qed

lemma train_model_rel:
  assumes "steps_closed T Ms Os R" and "model \<in> Ms" and "optimizer \<in> Os"
  shows "train_model T model dl criterion optimizer n et lg w = (r, w') \<Longrightarrow> R w w'"
  unfolding train_model_def by (rule train_epochs_rel [OF assms])

lemma train_model_shape:
  "train_model T model dl criterion optimizer n et lg w = (r, w') \<Longrightarrow> same_shape w w'"
  by (rule train_model_rel [OF steps_closed_shape [of T UNIV UNIV]]) simp_all

section \<open>What the trainer logs and returns\<close>

lemma log_all_Nil [simp]: "log_all hs [] files = files"
  by (simp add: log_all_def)

lemma log_all_append: "log_all hs (ms1 @ ms2) files = log_all hs ms2 (log_all hs ms1 files)"
  by (simp add: log_all_def)

lemma log_all_single_then:
  "log_all hs ms (log_all hs [m] files) = log_all hs (m # ms) files"
  by (simp add: log_all_def)

lemma log_files_logger_info:
  "log_files (logger_info l msg w) = log_all (handlers w l) [msg] (log_files w)"
  by (simp add: logger_info_def log_all_def)

lemma logger_info_fields:
  shows "rng (logger_info l msg w) = rng w"
    and "next_id (logger_info l msg w) = next_id w"
    and "tensors (logger_info l msg w) = tensors w"
    and "modules (logger_info l msg w) = modules w"
    and "optimizers (logger_info l msg w) = optimizers w"
    and "handlers (logger_info l msg w) = handlers w"
    and "stdout (logger_info l msg w) = stdout w"
    and "saved_images (logger_info l msg w) = saved_images w"
    and "npy_files (logger_info l msg w) = npy_files w"
  by (simp_all add: logger_info_def)

lemma print_fields:
  shows "rng (print msg w) = rng w"
    and "next_id (print msg w) = next_id w"
    and "tensors (print msg w) = tensors w"
    and "modules (print msg w) = modules w"
    and "optimizers (print msg w) = optimizers w"
    and "handlers (print msg w) = handlers w"
    and "log_files (print msg w) = log_files w"
    and "stdout (print msg w) = stdout w @ [msg]"
    and "saved_images (print msg w) = saved_images w"
    and "npy_files (print msg w) = npy_files w"
  by (simp_all add: print_def)

text \<open>The inner loop writes nothing.\<close>

lemma train_batches_quiet:
  "train_batches T model criterion optimizer bs acc w = (r, w') \<Longrightarrow>
     stdout w' = stdout w \<and> log_files w' = log_files w \<and> rng w' = rng w"
proof (induction bs acc w rule: train_batches_cases [where criterion=criterion and T=T and model=model and optimizer=optimizer])
  case (Nil acc w)
  then show ?case by auto
next
  case (Error e rest acc w)
  then show ?case by auto
next
  case (Refuse imgs labels rest l c t w e)
  then show ?case by (auto simp: train_batches_step)
next
  case (Fail imgs labels rest l c t w loss e w2)
  then show ?case
    using backward_fields(1,6,7) [OF Fail.hyps(2)]
    by (auto simp: train_batches_step zero_grad_fields)
next
  case (Step imgs labels rest l c t w loss u w2)
  from Step.prems Step.hyps
  have "train_batches T model criterion optimizer rest
          (l + loss, c + count_correct (argmax T (model_call T model imgs w)) labels, t + length labels)
          (adam_step T optimizer w2) = (r, w')"
    by (simp add: train_batches_step)
  from Step.IH [OF this] backward_fields(1,6,7) [OF Step.hyps(2)]
  show ?case by (simp add: adam_step_fields zero_grad_fields)
qed

lemma epoch_msgs_Nil [simp]: "epoch_msgs et n [] ls as = []"
  by (simp add: epoch_msgs_def)

lemma epoch_msgs_Cons [simp]:
  "epoch_msgs et n (e # es) (l # ls) (a # as) = EpochMsg et (Suc e) n l a # epoch_msgs et n es ls as"
  by (simp add: epoch_msgs_def)

lemma length_epoch_msgs:
  "length ls = length es \<Longrightarrow> length as = length es \<Longrightarrow> length (epoch_msgs et n es ls as) = length es"
  by (simp add: epoch_msgs_def)

lemma accuracy_range:
  fixes c t :: nat
  assumes "c \<le> t" and "0 < t"
  shows "0 \<le> 100 * real c / real t" and "100 * real c / real t \<le> 100"
proof -
  show "0 \<le> 100 * real c / real t" by simp
  have "real c / real t \<le> 1" using assms by simp
  then show "100 * real c / real t \<le> 100" by simp
qed

text \<open>
  What a completed run of the outer loop has done: one mean loss and one accuracy appended
  per epoch, in the order of the epochs; one message per epoch printed and, when there is a
  logger, logged; every accuracy between 0 and 100; every mean loss non-negative when the
  criterion is.
\<close>

lemma train_epochs_Inr:
  "train_epochs T model dl criterion optimizer n et lg es (ls0, as0) w = (Inr (ls, as), w') \<Longrightarrow>
     \<exists>ls1 as1. ls = ls0 @ ls1 \<and> as = as0 @ as1
       \<and> length ls1 = length es \<and> length as1 = length es
       \<and> stdout w' = stdout w @ epoch_msgs et n es ls1 as1
       \<and> log_files w' = (case lg of None \<Rightarrow> log_files w
                          | Some l \<Rightarrow> log_all (handlers w l) (epoch_msgs et n es ls1 as1) (log_files w))
       \<and> (\<forall>a \<in> set as1. 0 \<le> a \<and> a \<le> 100)
       \<and> ((\<forall>out labels x. criterion out labels = Inr x \<longrightarrow> 0 \<le> x) \<longrightarrow> (\<forall>l \<in> set ls1. 0 \<le> l))"
proof (induction es "(ls0, as0)" w arbitrary: ls0 as0 rule: train_epochs_cases [where T=T and model=model and criterion=criterion and optimizer=optimizer and dl=dl and et=et and n=n and lg=lg])
  case (Nil w)
  then show ?case by (auto split: option.splits)
next
  case (Fail epoch rest ls0 as0 w e w3)
  then show ?case by (simp add: train_epochs_step)
next
  case (Zero epoch rest ls0 as0 w el c t w3)
  then show ?case by (auto simp: train_epochs_step)
next
  case (Step epoch rest ls0 as0 w el c t w3)
  let ?l = "el / real (loader_len dl)"
  let ?a = "100 * real c / real t"
  let ?msg = "EpochMsg et (Suc epoch) n ?l ?a"
  let ?w4 = "case lg of None \<Rightarrow> w3 | Some l \<Rightarrow> logger_info l ?msg w3"
  let ?w2 = "snd (loader_iter T dl (model_train model w))"
  from Step.prems Step.hyps(1,2,3)
  have run: "train_epochs T model dl criterion optimizer n et lg rest (ls0 @ [?l], as0 @ [?a]) (print ?msg ?w4)
               = (Inr (ls, as), w')"
    by (simp add: train_epochs_step)
  from Step.hyps(4) [OF run]
  obtain ls1 as1 where r: "ls = (ls0 @ [?l]) @ ls1" "as = (as0 @ [?a]) @ as1"
      "length ls1 = length rest" "length as1 = length rest"
      "stdout w' = stdout (print ?msg ?w4) @ epoch_msgs et n rest ls1 as1"
      "log_files w' = (case lg of None \<Rightarrow> log_files (print ?msg ?w4)
                        | Some l \<Rightarrow> log_all (handlers (print ?msg ?w4) l) (epoch_msgs et n rest ls1 as1)
                                     (log_files (print ?msg ?w4)))"
      "\<forall>a \<in> set as1. 0 \<le> a \<and> a \<le> 100"
      "(\<forall>out labels x. criterion out labels = Inr x \<longrightarrow> 0 \<le> x) \<longrightarrow> (\<forall>l \<in> set ls1. 0 \<le> l)"
    by blast
  have q: "stdout w3 = stdout ?w2" "log_files w3 = log_files ?w2"
    using train_batches_quiet [OF Step.hyps(1)] by simp_all
  have w2: "stdout ?w2 = stdout w" "log_files ?w2 = log_files w" "handlers ?w2 = handlers w"
    by (simp_all add: loader_iter_world model_train_def)
  have h3: "handlers w3 = handlers w"
    using train_batches_shape [OF Step.hyps(1)] w2(3) by (simp add: same_shape_def)
  have so: "stdout (print ?msg ?w4) = stdout w @ [?msg]"
    using q(1) w2(1) by (simp add: print_fields logger_info_fields split: option.splits)
  have lo: "log_files (print ?msg ?w4) =
              (case lg of None \<Rightarrow> log_files w | Some l \<Rightarrow> log_all (handlers w l) [?msg] (log_files w))"
    using q(2) w2(2) h3 by (simp add: print_fields log_files_logger_info split: option.splits)
  have ho: "handlers (print ?msg ?w4) = handlers w"
    using h3 by (simp add: print_fields logger_info_fields split: option.splits)
  have ct: "c \<le> t"
    using train_batches_Inr(4) [OF Step.hyps(1)] by simp
  have el: "(\<forall>out labels x. criterion out labels = Inr x \<longrightarrow> 0 \<le> x) \<longrightarrow> 0 \<le> ?l"
  proof
    assume nn: "\<forall>out labels x. criterion out labels = Inr x \<longrightarrow> 0 \<le> x"
    have "\<forall>x \<in> set (batch_losses T model criterion optimizer (fst (loader_iter T dl (model_train model w))) ?w2). 0 \<le> x"
      using nn by (intro batch_losses_nonneg) simp
    then have "0 \<le> sum_list (batch_losses T model criterion optimizer (fst (loader_iter T dl (model_train model w))) ?w2)"
      by (simp add: sum_list_nonneg)
    then have "0 \<le> el" using train_batches_Inr(1) [OF Step.hyps(1)] by simp
    then show "0 \<le> ?l" by simp
  qed
  have c1: "ls = ls0 @ (?l # ls1)" and c2: "as = as0 @ (?a # as1)"
    using r(1,2) by simp_all
  have c3: "length (?l # ls1) = length (epoch # rest)" and c4: "length (?a # as1) = length (epoch # rest)"
    using r(3,4) by simp_all
  have c5: "stdout w' = stdout w @ epoch_msgs et n (epoch # rest) (?l # ls1) (?a # as1)"
    using r(5) so by simp
  have c6: "log_files w' = (case lg of None \<Rightarrow> log_files w
                          | Some l \<Rightarrow> log_all (handlers w l) (epoch_msgs et n (epoch # rest) (?l # ls1) (?a # as1)) (log_files w))"
  proof (cases lg)
    case None
    with r(6) lo show ?thesis by simp
  next
    case (Some l)
    with r(6) lo ho show ?thesis by (simp add: log_all_single_then)
  qed
  have c7: "\<forall>a \<in> set (?a # as1). 0 \<le> a \<and> a \<le> 100"
    using r(7) accuracy_range [OF ct Step.hyps(3)] by simp
  have c8: "(\<forall>out labels x. criterion out labels = Inr x \<longrightarrow> 0 \<le> x) \<longrightarrow> (\<forall>l \<in> set (?l # ls1). 0 \<le> l)"
    using r(8) el by simp
  from c1 c2 c3 c4 c5 c6 c7 c8
  have "\<exists>ls1 as1. ls = ls0 @ ls1 \<and> as = as0 @ as1
       \<and> length ls1 = length (epoch # rest) \<and> length as1 = length (epoch # rest)
       \<and> stdout w' = stdout w @ epoch_msgs et n (epoch # rest) ls1 as1
       \<and> log_files w' = (case lg of None \<Rightarrow> log_files w
                          | Some l \<Rightarrow> log_all (handlers w l) (epoch_msgs et n (epoch # rest) ls1 as1) (log_files w))
       \<and> (\<forall>a \<in> set as1. 0 \<le> a \<and> a \<le> 100)
       \<and> ((\<forall>out labels x. criterion out labels = Inr x \<longrightarrow> 0 \<le> x) \<longrightarrow> (\<forall>l \<in> set ls1. 0 \<le> l))"
    by (intro exI [of _ "?l # ls1"] exI [of _ "?a # as1"] conjI)
  then show ?case .
qed

section \<open>When the trainer completes\<close>

lemma same_shape_refl: "same_shape w w"
  by (simp add: same_shape_def)

lemma same_shape_trans: "same_shape a b \<Longrightarrow> same_shape b c \<Longrightarrow> same_shape a c"
  by (simp add: same_shape_def)

lemma same_shape_model_train: "same_shape w (model_train m w)"
  by (simp add: same_shape_def model_train_def)

lemma same_shape_model_eval: "same_shape w (model_eval m w)"
  by (simp add: same_shape_def model_eval_def)

lemma same_shape_loader_iter: "same_shape w (snd (loader_iter T dl w))"
  by (simp add: same_shape_def loader_iter_world)

lemma same_shape_logger_info: "same_shape w (logger_info l msg w)"
  by (simp add: same_shape_def logger_info_def)

lemma same_shape_print: "same_shape w (print msg w)"
  by (simp add: same_shape_def print_def)

lemma trainable_model_train [simp]: "trainable m (model_train m' w) = trainable m w"
  by (rule same_shape_trainable [OF same_shape_model_train])

lemma trainable_model_eval [simp]: "trainable m (model_eval m' w) = trainable m w"
  by (rule same_shape_trainable [OF same_shape_model_eval])

lemma trainable_loader_iter [simp]: "trainable m (snd (loader_iter T dl w)) = trainable m w"
  by (rule same_shape_trainable [OF same_shape_loader_iter])

lemma trainable_logger_info [simp]: "trainable m (logger_info l msg w) = trainable m w"
  by (rule same_shape_trainable [OF same_shape_logger_info])

lemma trainable_print [simp]: "trainable m (print msg w) = trainable m w"
  by (rule same_shape_trainable [OF same_shape_print])

lemma py_getitem_error: "py_getitem xs i = Inl e \<Longrightarrow> e = IndexError"
  by (simp add: py_getitem_def split: if_splits)

lemma remap_getitem_error:
  "remap_getitem ds i = Inl e \<Longrightarrow> e = IndexError \<or> (\<exists>k. e = KeyError k)"
  by (auto simp: remap_getitem_def subset_getitem_def split: sum.splits prod.splits option.splits
           dest: py_getitem_error)

lemma fetch_error_kind:
  "fetch ds ixs = Inl e \<Longrightarrow> e = IndexError \<or> (\<exists>k. e = KeyError k)"
  using fetch_error [of ds ixs e] remap_getitem_error by blast

lemma loader_iter_error_kind:
  "Inl e \<in> set (fst (loader_iter T dl w)) \<Longrightarrow> e = IndexError \<or> (\<exists>k. e = KeyError k)"
  by (auto simp: loader_iter_def Let_def split: if_splits dest: fetch_error_kind [OF sym])

lemma batch_sizes_pos:
  assumes "bs \<noteq> []"
    and "\<forall>b \<in> set bs. \<exists>imgs labels. b = Inr (imgs, labels) \<and> labels \<noteq> []"
  shows "0 < sum_list (map (\<lambda>b. case b of Inl e \<Rightarrow> 0 | Inr (imgs, labels) \<Rightarrow> length labels) bs)"
proof -
  from assms(1) obtain b rest where bs: "bs = b # rest" by (cases bs) auto
  with assms(2) obtain imgs labels where "b = Inr (imgs, labels)" "labels \<noteq> []" by auto
  with bs show ?thesis by simp
qed

lemma train_epochs_ok:
  assumes "loader_ok dl" and "shuffle dl \<longrightarrow> randperm_ok T"
    and "\<And>s b. b \<in> set (fst (loader_iter T dl s)) \<Longrightarrow>
           \<exists>imgs labels. b = Inr (imgs, labels)
             \<and> (\<forall>vals. isl (criterion (forward T vals imgs) labels) = False)"
  shows "trainable model w \<Longrightarrow>
           \<exists>r w'. train_epochs T model dl criterion optimizer n et lg es acc w = (Inr r, w')"
proof (induction es acc w rule: train_epochs_cases [where T=T and model=model and criterion=criterion and optimizer=optimizer and dl=dl and et=et and n=n and lg=lg])
  case (Nil acc w)
  show ?case by (cases acc) simp
next
  case (Fail epoch rest ls as w e w3)
  let ?w1 = "model_train model w"
  have "trainable model (snd (loader_iter T dl ?w1))"
    using Fail.prems by simp
  moreover have "\<forall>b \<in> set (fst (loader_iter T dl ?w1)). \<exists>imgs labels. b = Inr (imgs, labels)
       \<and> (\<forall>vals. isl (criterion (forward T vals imgs) labels) = False)"
    using assms(3) by blast
  ultimately obtain acc' w' where
    "train_batches T model criterion optimizer (fst (loader_iter T dl ?w1)) (0, 0, 0) (snd (loader_iter T dl ?w1))
       = (Inr acc', w')"
    using train_batches_ok by blast
  with Fail.hyps show ?case by simp
next
  case (Zero epoch rest ls as w el c t w3)
  let ?w1 = "model_train model w"
  have len: "0 < loader_len dl" by (rule loader_iter_ok(3) [OF assms(1,2)])
  have "fst (loader_iter T dl ?w1) \<noteq> []"
    using loader_iter_ok(2) [OF assms(1,2), of ?w1] len by auto
  then have "0 < sum_list (map (\<lambda>b. case b of Inl e \<Rightarrow> 0 | Inr (imgs, labels) \<Rightarrow> length labels)
                              (fst (loader_iter T dl ?w1)))"
    using loader_iter_ok(1) [OF assms(1,2), of ?w1] by (rule batch_sizes_pos)
  then have "0 < t" using train_batches_Inr(5) [OF Zero.hyps(1)] by simp
  with len Zero.hyps(2) show ?case by simp
next
  case (Step epoch rest ls as w el c t w3)
  let ?w1 = "model_train model w"
  let ?msg = "EpochMsg et (Suc epoch) n (el / real (loader_len dl)) (100 * real c / real t)"
  let ?w4 = "case lg of None \<Rightarrow> w3 | Some l \<Rightarrow> logger_info l ?msg w3"
  have "trainable model (snd (loader_iter T dl ?w1))"
    using Step.prems by simp
  then have "trainable model w3"
    using same_shape_trainable [OF train_batches_shape [OF Step.hyps(1)]] by simp
  then have "trainable model ?w4"
    by (simp split: option.splits)
  then have "trainable model (print ?msg ?w4)"
    by simp
  from Step.IH [OF this] Step.hyps(1,2,3) show ?case by (simp add: train_epochs_step)
qed

lemma train_epochs_append:
  "train_epochs T model dl criterion optimizer n et lg (es1 @ es2) acc w =
     (case train_epochs T model dl criterion optimizer n et lg es1 acc w of
        (Inl e, w') \<Rightarrow> (Inl e, w')
      | (Inr acc', w') \<Rightarrow> train_epochs T model dl criterion optimizer n et lg es2 acc' w')"
proof (induction es1 acc w rule: train_epochs_cases [where T=T and model=model and criterion=criterion and optimizer=optimizer and dl=dl and et=et and n=n and lg=lg])
  case (Nil acc w)
  show ?case by (cases acc) simp
next
  case (Fail epoch rest ls as w e w3)
  then show ?case by (simp add: train_epochs_step)
next
  case (Zero epoch rest ls as w el c t w3)
  then show ?case by (auto simp: train_epochs_step)
next
  case (Step epoch rest ls as w el c t w3)
  then show ?case by (simp add: train_epochs_step)
qed

lemma train_model_Inr:
  assumes "train_model T model dl criterion optimizer n et lg w = (Inr (ls, as), w')"
  shows "length ls = n" and "length as = n"
    and "stdout w' = stdout w @ epoch_msgs et n [0..<n] ls as"
    and "log_files w' = (case lg of None \<Rightarrow> log_files w
                          | Some l \<Rightarrow> log_all (handlers w l) (epoch_msgs et n [0..<n] ls as) (log_files w))"
    and "\<forall>a \<in> set as. 0 \<le> a \<and> a \<le> 100"
    and "(\<forall>out labels x. criterion out labels = Inr x \<longrightarrow> 0 \<le> x) \<longrightarrow> (\<forall>l \<in> set ls. 0 \<le> l)"
  using train_epochs_Inr [OF assms [unfolded train_model_def]] by auto

lemma train_model_ok:
  assumes "trainable model w" and "loader_ok dl" and "shuffle dl \<longrightarrow> randperm_ok T"
    and "\<And>s b. b \<in> set (fst (loader_iter T dl s)) \<Longrightarrow>
           \<exists>imgs labels. b = Inr (imgs, labels)
             \<and> (\<forall>vals. isl (criterion (forward T vals imgs) labels) = False)"
  shows "\<exists>ls as w'. train_model T model dl criterion optimizer n et lg w = (Inr (ls, as), w')"
  using train_epochs_ok [OF assms(2,3,4,1), where optimizer=optimizer and n=n and et=et and lg=lg
          and es="[0..<n]" and acc="([], [])"]
  by (auto simp: train_model_def)

text \<open>An exception of the trainer is one of a fetch, one of the criterion, a division by
  zero, or the one \<open>backward\<close> raises on a model with no trainable parameter.\<close>

lemma train_epochs_error:
  "train_epochs T model dl criterion optimizer n et lg es acc w = (Inl e, w') \<Longrightarrow>
     e = RuntimeError \<or> e = ZeroDivisionError \<or> e = IndexError \<or> (\<exists>k. e = KeyError k)
     \<or> (\<exists>out labels. criterion out labels = Inl e)"
proof (induction es acc w rule: train_epochs_cases [where T=T and model=model and criterion=criterion and optimizer=optimizer and dl=dl and et=et and n=n and lg=lg])
  case (Nil acc w)
  then show ?case by (cases acc) simp
next
  case (Fail epoch rest ls as w e' w3)
  from Fail have "e' = e" by (simp add: train_epochs_step)
  with train_batches_error [OF Fail.hyps] loader_iter_error_kind [of e T dl "model_train model w"]
  show ?case by blast
next
  case (Zero epoch rest ls as w el c t w3)
  then show ?case by (auto simp: train_epochs_step)
next
  case (Step epoch rest ls as w el c t w3)
  then show ?case by (simp add: train_epochs_step)
qed

section \<open>The cross-entropy criterion\<close>

lemma exp_le_sum_list_exp:
  fixes xs :: "real list"
  assumes "j < length xs"
  shows "exp (xs ! j) \<le> sum_list (map exp xs)"
proof -
  have "exp (xs ! j) \<in> set (map exp xs)" using assms by simp
  moreover have "\<forall>y \<in> set (map exp xs). 0 \<le> y" by auto
  ultimately show ?thesis by (intro member_le_sum_list) auto
qed

text \<open>A log-probability is never positive.\<close>

lemma log_softmax_nonpos:
  assumes "j < length xs"
  shows "log_softmax xs ! j \<le> 0"
proof -
  have "xs ! j = ln (exp (xs ! j))" by simp
  also have "\<dots> \<le> ln (sum_list (map exp xs))"
    using exp_le_sum_list_exp [OF assms]
    by (subst ln_le_cancel_iff) (auto intro: less_le_trans [of 0 "exp (xs ! j)"])
  finally show ?thesis using assms by (simp add: log_softmax_def)
qed

lemma CrossEntropyLoss_nonneg:
  assumes "CrossEntropyLoss outputs labels = Inr x"
  shows "0 \<le> x"
proof -
  from assms have ok: "\<not> list_ex (\<lambda>(row, label). label < 0 \<or> int (length row) \<le> label) (zip outputs labels)"
    and x: "x = sum_list (map (\<lambda>(row, label). - (log_softmax row ! nat label)) (zip outputs labels))
                / real (length labels)"
    by (auto simp: CrossEntropyLoss_def split: if_splits)
  have nn: "\<And>y. y \<in> set (map (\<lambda>(row, label). - (log_softmax row ! nat label)) (zip outputs labels))
             \<Longrightarrow> 0 \<le> y"
  proof -
    fix y assume "y \<in> set (map (\<lambda>(row, label). - (log_softmax row ! nat label)) (zip outputs labels))"
    then obtain row label where rl: "(row, label) \<in> set (zip outputs labels)"
        and y: "y = - (log_softmax row ! nat label)" by auto
    from ok rl have "0 \<le> label" "label < int (length row)"
      by (auto simp: list_ex_iff)
    then have "nat label < length row" by simp
    from log_softmax_nonpos [OF this] y show "0 \<le> y" by simp
  qed
  have "0 \<le> sum_list (map (\<lambda>(row, label). - (log_softmax row ! nat label)) (zip outputs labels))"
    by (rule sum_list_nonneg) (rule nn)
  then show ?thesis unfolding x by simp
qed

lemma CrossEntropyLoss_ok:
  assumes "length outputs = length labels"
    and "\<forall>row \<in> set outputs. length row = k"
    and "\<forall>l \<in> set labels. 0 \<le> l \<and> l < int k"
  shows "\<exists>x. CrossEntropyLoss outputs labels = Inr x"
proof -
  have "\<not> list_ex (\<lambda>(row, label). label < 0 \<or> int (length row) \<le> label) (zip outputs labels)"
  proof
    assume "list_ex (\<lambda>(row, label). label < 0 \<or> int (length row) \<le> label) (zip outputs labels)"
    then obtain row label where rl: "(row, label) \<in> set (zip outputs labels)"
        and bad: "label < 0 \<or> int (length row) \<le> label"
      by (auto simp: list_ex_iff)
    from rl have "row \<in> set outputs" and "label \<in> set labels"
      by (auto dest: set_zip_leftD set_zip_rightD)
    with assms(2,3) have "length row = k" and "0 \<le> label \<and> label < int k" by auto
    with bad show False by simp
  qed
  with assms(1) show ?thesis by (simp add: CrossEntropyLoss_def)
qed

lemma CrossEntropyLoss_error:
  "CrossEntropyLoss outputs labels = Inl e \<Longrightarrow> e = ValueError \<or> e = IndexError"
  by (auto simp: CrossEntropyLoss_def split: if_splits)

text \<open>The labels of a fetched batch are labels of the dataset's items.\<close>

lemma class_labels_iff:
  "class_labels k ds \<longleftrightarrow>
     (\<forall>i < remap_len ds. \<forall>img l. remap_getitem ds (int i) = Inr (img, l) \<longrightarrow> 0 \<le> l \<and> l < int k)"
  by (auto simp: class_labels_def list_all_iff split: sum.splits prod.splits)

lemma fetch_class_labels:
  assumes "class_labels k ds" and "set ixs \<subseteq> {..<remap_len ds}"
    and "fetch ds ixs = Inr (imgs, labels)"
  shows "\<forall>l \<in> set labels. 0 \<le> l \<and> l < int k"
  using assms(2,3)
proof (induction ixs arbitrary: imgs labels)
  case Nil
  then show ?case by simp
next
  case (Cons i ixs)
  from Cons.prems(2) obtain img l imgs' labels' where
      g: "remap_getitem ds (int i) = Inr (img, l)" and f: "fetch ds ixs = Inr (imgs', labels')"
      and eq: "labels = l # labels'"
    by (auto split: sum.splits prod.splits)
  from Cons.prems(1) have "i < remap_len ds" by simp
  with assms(1) g have "0 \<le> l \<and> l < int k" by (auto simp: class_labels_iff)
  moreover from Cons.IH [OF _ f] Cons.prems(1) have "\<forall>l \<in> set labels'. 0 \<le> l \<and> l < int k" by simp
  ultimately show ?case by (simp add: eq)
qed

text \<open>Over a loader whose labels are class indices, the criterion accepts every batch of
  a network that gives one row of scores per image.\<close>

lemma loader_batches_accepted:
  assumes "loader_ok dl" and "shuffle dl \<longrightarrow> randperm_ok T"
    and "class_labels k (dl_dataset dl)" and "forward_shape T k"
    and "b \<in> set (fst (loader_iter T dl s))"
  shows "\<exists>imgs labels. b = Inr (imgs, labels)
           \<and> (\<forall>vals. isl (CrossEntropyLoss (forward T vals imgs) labels) = False)"
proof -
  define n where "n = remap_len (dl_dataset dl)"
  define order where "order = (if shuffle dl then randperm T (rng s) n else [0..<n])"
  have it: "fst (loader_iter T dl s) = map (fetch (dl_dataset dl)) (chunks (batch_size dl) order)"
    by (simp add: loader_iter_def Let_def order_def n_def)
  have set_order: "set order = {..<n}"
    using assms(2) by (auto simp: order_def randperm_set)
  from assms(5) obtain c where c: "c \<in> set (chunks (batch_size dl) order)" "b = fetch (dl_dataset dl) c"
    by (auto simp: it)
  have sub: "set c \<subseteq> {..<remap_len (dl_dataset dl)}"
    using chunks_subset [OF c(1)] set_order by (simp add: n_def)
  from loader_iter_ok(1) [OF assms(1,2), of s] assms(5)
  obtain imgs labels where b: "b = Inr (imgs, labels)" by blast
  with c(2) have f: "fetch (dl_dataset dl) c = Inr (imgs, labels)" by simp
  have lab: "\<forall>l \<in> set labels. 0 \<le> l \<and> l < int k"
    by (rule fetch_class_labels [OF assms(3) sub f])
  have len: "length imgs = length labels"
    using fetch_label_range [OF f] by simp
  have "\<forall>vals. isl (CrossEntropyLoss (forward T vals imgs) labels) = False"
  proof
    fix vals
    have "length (forward T vals imgs) = length labels"
      and "\<forall>row \<in> set (forward T vals imgs). length row = k"
      using assms(4) len by (simp_all add: forward_shape_def)
    from CrossEntropyLoss_ok [OF this lab]
    show "isl (CrossEntropyLoss (forward T vals imgs) labels) = False" by auto
  qed
  with b show ?thesis by blast
qed

section \<open>The example instance\<close>

lemma randperm_ok_example: "randperm_ok (example_torch g)"
  by (auto simp: randperm_ok_def example_torch_def)

lemma example_world_eq:
  "example_world g =
     \<lparr>rng = 6, next_id = 8,
      tensors = (\<lambda>p. \<lparr>data = 0, requires_grad = False, grad = None\<rparr>)
        (0 := \<lparr>data = 0, requires_grad = True, grad = None\<rparr>,
         1 := \<lparr>data = 1, requires_grad = True, grad = None\<rparr>,
         2 := \<lparr>data = 2, requires_grad = True, grad = None\<rparr>,
         3 := \<lparr>data = 3, requires_grad = True, grad = None\<rparr>,
         4 := \<lparr>data = 4, requires_grad = True, grad = None\<rparr>,
         5 := \<lparr>data = 5, requires_grad = True, grad = None\<rparr>),
      modules = (\<lambda>m. \<lparr>conv1 = \<lparr>weight = 0, bias = 0\<rparr>, conv2 = \<lparr>weight = 0, bias = 0\<rparr>,
                       fc1 = \<lparr>weight = 0, bias = 0\<rparr>, training = False\<rparr>)
        (6 := \<lparr>conv1 = \<lparr>weight = 0, bias = 1\<rparr>, conv2 = \<lparr>weight = 2, bias = 3\<rparr>,
               fc1 = \<lparr>weight = 4, bias = 5\<rparr>, training = True\<rparr>),
      optimizers = (\<lambda>x. \<lparr>params = [], state = Map.empty\<rparr>)
        (7 := \<lparr>params = [0, 1, 2, 3, 4, 5], state = Map.empty\<rparr>),
      handlers = (\<lambda>name. []),
      log_files = Map.empty,
      stdout = [],
      saved_images = [],
      npy_files = []\<rparr>"
  by (simp add: example_world_def MNISTNet_def new_layer_def new_parameter_def fresh_world_def
      Adam_def model_parameters_def layer_parameters_def example_torch_def Let_def eval_nat_numeral)

lemma trainable_example: "trainable 6 (example_world g)"
  by (simp add: example_world_eq trainable_def model_parameters_def layer_parameters_def)

lemma small_train_indices_example: "small_train_indices example_train = [1, 3, 4]"
  by code_simp

lemma test_indices_example: "test_indices example_test = [0, 2]"
  by code_simp

lemma train_indices_example: "train_indices example_train = [0, 2, 5]"
  by code_simp

lemma loader_ok_small_example: "loader_ok (small_train_loader example_train)"
  by code_simp

lemma loader_ok_big_example: "loader_ok (big_train_loader example_train)"
  by code_simp

lemma loader_ok_test_example: "loader_ok (test_loader example_test)"
  by code_simp

lemma forward_shape_example: "forward_shape (example_torch g) 5"
  by (simp add: forward_shape_def example_torch_def)

lemma class_labels_small_example: "class_labels 5 (dl_dataset (small_train_loader example_train))"
  by code_simp

lemma class_labels_big_example: "class_labels 5 (dl_dataset (big_train_loader example_train))"
  by code_simp

section \<open>The trainer: epochs, losses, accuracies\<close>

text \<open>
  C4, as amended. With the cross-entropy criterion that both call sites pass: whenever
  \<open>train_model\<close> returns, it returns exactly \<open>num_epochs\<close> mean losses and
  \<open>num_epochs\<close> accuracies, the pair at position \<open>k\<close> being the one printed for
  epoch \<open>k + 1\<close>; every mean loss is non-negative and every accuracy lies between 0 and
  100. It does return, whatever the metric values, when the model has a trainable
  parameter, the loader yields at least one batch and can read every item, and the labels
  are class indices of the network's output (shuffled loaders: the library's permutation
  being one).
\<close>

theorem train_model_epochs:
  "(train_model T model dl CrossEntropyLoss optimizer n et lg w = (Inr (ls, as), w') \<longrightarrow>
      length ls = n \<and> length as = n
      \<and> stdout w' = stdout w @ epoch_msgs et n [0..<n] ls as
      \<and> (\<forall>l \<in> set ls. 0 \<le> l)
      \<and> (\<forall>a \<in> set as. 0 \<le> a \<and> a \<le> 100))
   \<and> (trainable model w \<and> loader_ok dl \<and> class_labels k (dl_dataset dl) \<and> forward_shape T k
        \<and> (shuffle dl \<longrightarrow> randperm_ok T) \<longrightarrow>
      (\<exists>ls as w'. train_model T model dl CrossEntropyLoss optimizer n et lg w = (Inr (ls, as), w')))"
proof (intro conjI impI)
  assume r: "train_model T model dl CrossEntropyLoss optimizer n et lg w = (Inr (ls, as), w')"
  show "length ls = n" by (rule train_model_Inr(1) [OF r])
  show "length as = n" by (rule train_model_Inr(2) [OF r])
  show "stdout w' = stdout w @ epoch_msgs et n [0..<n] ls as" by (rule train_model_Inr(3) [OF r])
  show "\<forall>a \<in> set as. 0 \<le> a \<and> a \<le> 100" by (rule train_model_Inr(5) [OF r])
  have "\<forall>out labels x. CrossEntropyLoss out labels = Inr x \<longrightarrow> 0 \<le> x"
    using CrossEntropyLoss_nonneg by blast
  with train_model_Inr(6) [OF r] show "\<forall>l \<in> set ls. 0 \<le> l" by blast
next
  assume h: "trainable model w \<and> loader_ok dl \<and> class_labels k (dl_dataset dl) \<and> forward_shape T k
        \<and> (shuffle dl \<longrightarrow> randperm_ok T)"
  then have tr: "trainable model w" and lo: "loader_ok dl" and sh: "shuffle dl \<longrightarrow> randperm_ok T"
    and cl: "class_labels k (dl_dataset dl)" and fs: "forward_shape T k"
    by simp_all
  show "\<exists>ls as w'. train_model T model dl CrossEntropyLoss optimizer n et lg w = (Inr (ls, as), w')"
    by (rule train_model_ok [OF tr lo sh]) (rule loader_batches_accepted [OF lo sh cl fs])
qed

theorem train_model_epochs_witness:
  "\<exists>ls as w'. train_model (example_torch 1) 6 (small_train_loader example_train) CrossEntropyLoss 7 3
                 ''Non-Transfer'' None (example_world 1) = (Inr (ls, as), w')
      \<and> length ls = 3 \<and> length as = 3
      \<and> stdout w' = epoch_msgs ''Non-Transfer'' 3 [0, 1, 2] ls as
      \<and> list_all (\<lambda>l. 0 \<le> l) ls"
proof -
  have sh: "shuffle (small_train_loader example_train) \<longrightarrow> randperm_ok (example_torch 1)"
    by (simp add: randperm_ok_example)
  have up: "[0..<3] = [0, 1, 2]" by (simp add: upt_rec)
  have so: "stdout (example_world 1) = []" by (simp add: example_world_eq)
  from train_model_epochs [of "example_torch 1" 6 "small_train_loader example_train" 7 3
         "''Non-Transfer''" None "example_world 1" _ _ _ 5]
       trainable_example [of 1] loader_ok_small_example sh class_labels_small_example
       forward_shape_example [of 1]
  obtain ls as w' where r:
    "train_model (example_torch 1) 6 (small_train_loader example_train) CrossEntropyLoss 7 3
       ''Non-Transfer'' None (example_world 1) = (Inr (ls, as), w')"
    by blast
  from train_model_epochs [of "example_torch 1" 6 "small_train_loader example_train" 7 3
         "''Non-Transfer''" None "example_world 1" ls as w'] r
  have "length ls = 3 \<and> length as = 3
      \<and> stdout w' = stdout (example_world 1) @ epoch_msgs ''Non-Transfer'' 3 [0..<3] ls as
      \<and> (\<forall>l \<in> set ls. 0 \<le> l)"
    by blast
  with r show ?thesis unfolding up so by (auto simp: list_all_iff)
qed

text \<open>On a loader with no item, one epoch divides by \<open>len(train_loader) = 0\<close>; on an
  item whose label is no class index, the criterion raises.\<close>

theorem train_model_empty_loader:
  "fst (train_model (example_torch 1) 6
          (DataLoader (RemapLabelsDataset (Subset example_train []) odd_label_map) 2 False)
          CrossEntropyLoss 7 1 ''Non-Transfer'' None (example_world 1)) = Inl ZeroDivisionError
   \<and> fst (train_model (example_torch 1) 6
          (DataLoader (RemapLabelsDataset (Subset example_train [4]) [5 \<mapsto> 7]) 2 False)
          CrossEntropyLoss 7 1 ''Non-Transfer'' None (example_world 1)) = Inl IndexError"
proof
  show "fst (train_model (example_torch 1) 6
          (DataLoader (RemapLabelsDataset (Subset example_train []) odd_label_map) 2 False)
          CrossEntropyLoss 7 1 ''Non-Transfer'' None (example_world 1)) = Inl ZeroDivisionError"
    by (simp add: train_model_def train_epochs_step loader_iter_def DataLoader_def RemapLabelsDataset_def
        Subset_def remap_len_def subset_len_def loader_len_def)
  have ch: "chunks 2 [0::nat] = [[0]]"
    by (simp add: chunks.simps [of 2 "[0]"])
  have it: "loader_iter (example_torch 1)
              (DataLoader (RemapLabelsDataset (Subset example_train [4]) [5 \<mapsto> 7]) 2 False) s
            = ([Inr ([4], [7])], s)" for s :: "(int, unit) world"
    by (simp add: loader_iter_def DataLoader_def RemapLabelsDataset_def Subset_def remap_len_def
        subset_len_def ch remap_getitem_def subset_getitem_def py_getitem_def example_train_def)
  have cr: "CrossEntropyLoss (model_call (example_torch 1) 6 [4] s) [7] = Inl IndexError"
    for s :: "(int, unit) world"
    by (simp add: CrossEntropyLoss_def model_call_def example_torch_def)
  show "fst (train_model (example_torch 1) 6
          (DataLoader (RemapLabelsDataset (Subset example_train [4]) [5 \<mapsto> 7]) 2 False)
          CrossEntropyLoss 7 1 ''Non-Transfer'' None (example_world 1)) = Inl IndexError"
    by (simp add: train_model_def train_epochs_step it train_batches_step cr)
qed

section \<open>The evaluator\<close>

lemma test_batches_step:
  "test_batches T model (Inr (imgs, labels) # rest) (c, t) w =
     test_batches T model rest
       (c + count_correct (argmax T (model_call T model imgs w)) labels, t + length labels) w"
  by (simp add: Let_def)

declare test_batches.simps(3) [simp del]

lemma test_batches_Inr_gen:
  "test_batches T model bs acc w = Inr acc' \<Longrightarrow>
     fst acc' + snd acc \<le> snd acc' + fst acc
     \<and> snd acc' = snd acc
          + sum_list (map (\<lambda>b. case b of Inl e \<Rightarrow> 0 | Inr (imgs, labels) \<Rightarrow> length labels) bs)"
proof (induction bs arbitrary: acc)
  case Nil
  then show ?case by simp
next
  case (Cons b bs)
  show ?case
  proof (cases b)
    case (Inl e)
    with Cons.prems show ?thesis by simp
  next
    case (Inr x)
    obtain imgs labels where x: "x = (imgs, labels)" by (cases x)
    obtain c t where acc: "acc = (c, t)" by (cases acc)
    from Cons.prems Inr x acc
    have "test_batches T model bs
            (c + count_correct (argmax T (model_call T model imgs w)) labels, t + length labels) w
          = Inr acc'"
      by (simp add: test_batches_step)
    from Cons.IH [OF this] count_correct_le [of "argmax T (model_call T model imgs w)" labels]
    show ?thesis by (simp add: Inr x acc)
  qed
qed

lemma test_batches_ok:
  "\<forall>b \<in> set bs. isl b = False \<Longrightarrow> \<exists>acc'. test_batches T model bs acc w = Inr acc'"
proof (induction bs arbitrary: acc)
  case Nil
  show ?case by simp
next
  case (Cons b bs)
  from Cons.prems obtain imgs labels where b: "b = Inr (imgs, labels)"
    by (cases b) auto
  obtain c t where acc: "acc = (c, t)" by (cases acc)
  from Cons.IH [of "(c + count_correct (argmax T (model_call T model imgs w)) labels, t + length labels)"]
       Cons.prems
  show ?case by (simp add: b acc test_batches_step)
qed

lemma test_batches_error:
  "test_batches T model bs acc w = Inl e \<Longrightarrow> Inl e \<in> set bs"
proof (induction bs arbitrary: acc)
  case Nil
  then show ?case by simp
next
  case (Cons b bs)
  show ?case
  proof (cases b)
    case (Inl e')
    with Cons.prems show ?thesis by simp
  next
    case (Inr x)
    obtain imgs labels where x: "x = (imgs, labels)" by (cases x)
    obtain c t where acc: "acc = (c, t)" by (cases acc)
    from Cons.prems Inr x acc Cons.IH show ?thesis by (simp add: test_batches_step)
  qed
qed

text \<open>The evaluator reads the state only through the values of the model's parameters.\<close>

lemma model_call_cong:
  assumes "model_parameters (modules v model) = model_parameters (modules w model)"
    and "\<forall>p \<in> set (model_parameters (modules w model)). data (tensors v p) = data (tensors w p)"
  shows "model_call T model imgs v = model_call T model imgs w"
  using assms by (simp add: model_call_def cong: map_cong)

lemma test_batches_cong:
  assumes "model_parameters (modules v model) = model_parameters (modules w model)"
    and "\<forall>p \<in> set (model_parameters (modules w model)). data (tensors v p) = data (tensors w p)"
  shows "test_batches T model bs acc v = test_batches T model bs acc w"
proof (induction bs arbitrary: acc)
  case Nil
  show ?case by simp
next
  case (Cons b bs)
  show ?case
  proof (cases b)
    case (Inl e)
    then show ?thesis by simp
  next
    case (Inr x)
    obtain imgs labels where x: "x = (imgs, labels)" by (cases x)
    obtain c t where acc: "acc = (c, t)" by (cases acc)
    show ?thesis
      using Cons.IH model_call_cong [OF assms, of T]
      by (simp add: Inr x acc test_batches_step)
  qed
qed

lemma test_model_world: "snd (test_model T model dl w) = snd (loader_iter T dl (model_eval model w))"
  by (simp add: test_model_def Let_def split: prod.splits sum.splits)

lemma test_model_result:
  "fst (test_model T model dl w) =
     (case test_batches T model (fst (loader_iter T dl (model_eval model w))) (0, 0)
             (snd (loader_iter T dl (model_eval model w))) of
        Inl e \<Rightarrow> Inl e
      | Inr (c, t) \<Rightarrow> if t = 0 then Inl ZeroDivisionError else Inr (100 * real c / real t))"
  by (simp add: test_model_def Let_def split: prod.splits sum.splits)

lemma test_model_rel:
  assumes "steps_closed T Ms Os R" and "model \<in> Ms"
  shows "R w (snd (test_model T model dl w))"
  using steps_closedD(2) [OF assms(1) steps_closedD(7) [OF assms] loader_iter_rel [OF assms(1)]]
  by (simp add: test_model_world)

lemma test_model_tensors: "tensors (snd (test_model T model dl w)) = tensors w"
  by (simp add: test_model_world loader_iter_world model_eval_def)

lemma test_model_Inr:
  assumes "test_model T model dl w = (Inr a, w')"
  shows "0 \<le> a" and "a \<le> 100"
proof -
  from assms have f: "fst (test_model T model dl w) = Inr a" by simp
  then obtain c t where ct:
    "test_batches T model (fst (loader_iter T dl (model_eval model w))) (0, 0)
       (snd (loader_iter T dl (model_eval model w))) = Inr (c, t)"
    and t: "t \<noteq> 0" and a: "a = 100 * real c / real t"
    by (auto simp: test_model_result split: sum.splits prod.splits if_splits)
  from test_batches_Inr_gen [OF ct] have "c \<le> t" by simp
  with t a accuracy_range [of c t] show "0 \<le> a" and "a \<le> 100" by simp_all
qed

lemma test_model_ok:
  assumes "loader_ok dl" and "shuffle dl \<longrightarrow> randperm_ok T"
  shows "\<exists>a w'. test_model T model dl w = (Inr a, w')"
proof -
  let ?w1 = "model_eval model w"
  let ?bs = "fst (loader_iter T dl ?w1)"
  have "\<forall>b \<in> set ?bs. isl b = False"
    using loader_iter_ok(1) [OF assms, of ?w1] by auto
  then obtain acc' where r: "test_batches T model ?bs (0, 0) (snd (loader_iter T dl ?w1)) = Inr acc'"
    using test_batches_ok by blast
  obtain c t where acc': "acc' = (c, t)" by (cases acc')
  let ?S = "sum_list (map (\<lambda>b. case b of Inl e \<Rightarrow> 0 | Inr (imgs, labels) \<Rightarrow> length labels) ?bs)"
  have "?bs \<noteq> []"
    using loader_iter_ok(2) [OF assms, of ?w1] loader_iter_ok(3) [OF assms] by auto
  then have pos: "0 < ?S"
    using loader_iter_ok(1) [OF assms, of ?w1] by (rule batch_sizes_pos)
  from test_batches_Inr_gen [OF r] have "snd acc' = snd (0::nat, 0::nat) + ?S" by (rule conjunct2)
  then have teq: "t = ?S" unfolding acc' snd_conv by (simp only: add_0)
  have "0 < t" unfolding teq by (rule pos)
  then have "t \<noteq> 0" by (rule gr_implies_not0 [THEN not_sym, THEN not_sym])
  with r acc' have "fst (test_model T model dl w) = Inr (100 * real c / real t)"
    by (simp add: test_model_result)
  then show ?thesis by (cases "test_model T model dl w") auto
qed

lemma test_model_error:
  "test_model T model dl w = (Inl e, w') \<Longrightarrow>
     e = ZeroDivisionError \<or> e = IndexError \<or> (\<exists>k. e = KeyError k)"
proof -
  assume "test_model T model dl w = (Inl e, w')"
  then have "fst (test_model T model dl w) = Inl e" by simp
  then show ?thesis
    by (auto simp: test_model_result split: sum.splits prod.splits if_splits
             dest!: test_batches_error loader_iter_error_kind)
qed

lemma test_model_cong:
  assumes "model_parameters (modules v model) = model_parameters (modules w model)"
    and "\<forall>p \<in> set (model_parameters (modules w model)). data (tensors v p) = data (tensors w p)"
    and "shuffle dl \<longrightarrow> rng v = rng w"
  shows "fst (test_model T model dl v) = fst (test_model T model dl w)"
proof -
  have bs: "fst (loader_iter T dl (model_eval model v)) = fst (loader_iter T dl (model_eval model w))"
    using assms(3) by (simp add: loader_iter_def Let_def model_eval_def)
  have "test_batches T model (fst (loader_iter T dl (model_eval model w))) (0, 0)
           (snd (loader_iter T dl (model_eval model v)))
        = test_batches T model (fst (loader_iter T dl (model_eval model w))) (0, 0)
           (snd (loader_iter T dl (model_eval model w)))"
    using assms(1,2)
    by (intro test_batches_cong) (simp_all add: loader_iter_world model_eval_def model_parameters_def)
  with bs show ?thesis by (simp add: test_model_result)
qed

lemma model_eval_idem: "model_eval model (model_eval model w) = model_eval model w"
  by (simp add: model_eval_def)

lemma test_model_again:
  assumes "\<not> shuffle dl"
  shows "test_model T model dl (snd (test_model T model dl w)) = test_model T model dl w"
proof -
  have "snd (test_model T model dl w) = model_eval model w"
    using assms by (simp add: test_model_world loader_iter_world)
  then show ?thesis by (simp add: test_model_def model_eval_idem)
qed

text \<open>
  C5, as amended. Whenever \<open>test_model\<close> returns, the accuracy lies between 0 and 100,
  and it does return when the loader yields at least one batch and can read every item.
  The outcome is a function of the values of the model's parameters and of the order of
  the stream (for a shuffled loader, of the generator state that fixes it): two states that
  agree on these give the same outcome. Evaluation changes no parameter, and evaluating
  again over a loader that does not shuffle gives the same outcome and state.
\<close>

theorem test_model_accuracy:
  "(test_model T model dl w = (Inr a, w') \<longrightarrow> 0 \<le> a \<and> a \<le> 100)
   \<and> (loader_ok dl \<and> (shuffle dl \<longrightarrow> randperm_ok T) \<longrightarrow>
        (\<exists>a w'. test_model T model dl w = (Inr a, w')))
   \<and> (model_parameters (modules v model) = model_parameters (modules w model)
        \<and> (\<forall>p \<in> set (model_parameters (modules w model)). data (tensors v p) = data (tensors w p))
        \<and> (shuffle dl \<longrightarrow> rng v = rng w) \<longrightarrow>
        fst (test_model T model dl v) = fst (test_model T model dl w))
   \<and> tensors (snd (test_model T model dl w)) = tensors w
   \<and> (\<not> shuffle dl \<longrightarrow>
        test_model T model dl (snd (test_model T model dl w)) = test_model T model dl w)"
proof (intro conjI impI)
  assume r: "test_model T model dl w = (Inr a, w')"
  show "0 \<le> a" by (rule test_model_Inr(1) [OF r])
  show "a \<le> 100" by (rule test_model_Inr(2) [OF r])
next
  assume "loader_ok dl \<and> (shuffle dl \<longrightarrow> randperm_ok T)"
  then show "\<exists>a w'. test_model T model dl w = (Inr a, w')"
    using test_model_ok [of dl T model w] by blast
next
  assume "model_parameters (modules v model) = model_parameters (modules w model)
        \<and> (\<forall>p \<in> set (model_parameters (modules w model)). data (tensors v p) = data (tensors w p))
        \<and> (shuffle dl \<longrightarrow> rng v = rng w)"
  then show "fst (test_model T model dl v) = fst (test_model T model dl w)"
    using test_model_cong [of v model w dl T] by blast
next
  show "tensors (snd (test_model T model dl w)) = tensors w" by (rule test_model_tensors)
next
  assume "\<not> shuffle dl"
  then show "test_model T model dl (snd (test_model T model dl w)) = test_model T model dl w"
    by (rule test_model_again)
qed

theorem test_model_accuracy_witness:
  "\<exists>a w'. test_model (example_torch 1) 6 (test_loader example_test) (example_world 1) = (Inr a, w')
      \<and> 0 \<le> a \<and> a \<le> 100
      \<and> test_model (example_torch 1) 6 (test_loader example_test) w' = (Inr a, w')"
proof -
  have ns: "\<not> shuffle (test_loader example_test)"
    by (simp add: test_loader_def DataLoader_def)
  from test_model_accuracy [of "example_torch 1" 6 "test_loader example_test" "example_world 1"]
       loader_ok_test_example ns
  obtain a w' where r:
    "test_model (example_torch 1) 6 (test_loader example_test) (example_world 1) = (Inr a, w')"
    by blast
  from test_model_accuracy [of "example_torch 1" 6 "test_loader example_test" "example_world 1" a w'] r ns
  have "0 \<le> a \<and> a \<le> 100
      \<and> test_model (example_torch 1) 6 (test_loader example_test)
           (snd (test_model (example_torch 1) 6 (test_loader example_test) (example_world 1)))
         = test_model (example_torch 1) 6 (test_loader example_test) (example_world 1)"
    by blast
  with r show ?thesis by auto
qed

text \<open>On a loader with no item, the evaluator divides by \<open>total = 0\<close>.\<close>

theorem test_model_empty_loader:
  "fst (test_model (example_torch 1) 6
          (DataLoader (RemapLabelsDataset (Subset example_test []) odd_label_map) 32 False)
          (example_world 1)) = Inl ZeroDivisionError"
  by (simp add: test_model_result loader_iter_def DataLoader_def RemapLabelsDataset_def
      Subset_def remap_len_def subset_len_def)

end
